theory Spec2Isabelle
  imports Main "HOL-Library.AList" "HOL-Library.Finite_Map" "HOL-Library.Sublist"
begin

section \<open>Section resolution: getCurrentDependencies\<close>

text \<open>
  The package \<^verbatim>\<open>semver\<close> is an external library. The three functions the source calls are
  taken as a parameter: \<open>validRange\<close> (truthy result of \<^verbatim>\<open>semver.validRange\<close>),
  \<open>minVersion\<close> and \<open>gt\<close>. \<^verbatim>\<open>semver.minVersion\<close> returns \<^verbatim>\<open>null\<close> (\<open>None\<close>) for a valid range
  that no version satisfies, such as \<^verbatim>\<open><0.0.0-0\<close>; the source asserts with \<^verbatim>\<open>!\<close> that it does
  not, and \<^verbatim>\<open>semver.gt\<close> throws a \<^verbatim>\<open>TypeError\<close> when it is given \<^verbatim>\<open>null\<close>.
\<close>

record 'v semver =
  validRange :: "string \<Rightarrow> bool"
  minVersion :: "string \<Rightarrow> 'v option"
  gt :: "'v \<Rightarrow> 'v \<Rightarrow> bool"

text \<open>
  An \<^verbatim>\<open>Index<VersionSpec>\<close> under construction, by its own properties: a key may be bound to
  \<^verbatim>\<open>undefined\<close> (\<open>None\<close>), which is what \<^verbatim>\<open>parsePackageManager\<close> produces for a field
  without \<^verbatim>\<open>@\<close>.
\<close>

type_synonym VersionSpec = string
type_synonym raw_index = "(string, VersionSpec option) fmap"

text \<open>
  The fields of \<^verbatim>\<open>PackageFile\<close> that are read: \<^verbatim>\<open>packageManager\<close>, and under \<open>depObjects\<close>
  the dependency sections by name (\<^verbatim>\<open>pkgData[depSection]\<close>), each with its entries in file
  order.
\<close>

record PackageFile =
  packageManager :: "string option"
  depObjects :: "(string \<times> (string \<times> VersionSpec) list) list"

datatype error =
    ProgramError
  | YamlStringifyError
  | UnsupportedCatalogFileType string
  | NoSuchFile string
  | SyntaxError
  | TypeError

text \<open>
  The options the modelled functions read. \<open>depSections\<close> is the list
  \<^verbatim>\<open>resolveDepSections(options.dep)\<close>. \<open>filterAndReject\<close> is the predicate that
  \<^verbatim>\<open>filterAndReject(filter, reject, filterVersion, rejectVersion)\<close> returns for the four filter
  options; it may throw when it is applied to an entry (an invalid pattern), which is the
  value \<open>None\<close>. \<open>packageManagerOption\<close> is \<^verbatim>\<open>options.packageManager\<close>.
\<close>

record Options =
  depSections :: "string list"
  workspacePackages :: "string list option"
  filterAndReject :: "string \<Rightarrow> VersionSpec \<Rightarrow> bool option"
  packageManagerOption :: "string option"
  upgrade :: bool

text \<open>
  The objects of the source are plain objects, so reading a property that is not an own
  property finds the members of \<^verbatim>\<open>Object.prototype\<close>. Each of them is truthy and none is a
  string: the methods are functions and \<^verbatim>\<open>__proto__\<close> reads as \<^verbatim>\<open>Object.prototype\<close> itself.
\<close>

definition objectPrototypeNames :: "string list" where
  "objectPrototypeNames =
     [''constructor'', ''hasOwnProperty'', ''isPrototypeOf'', ''propertyIsEnumerable'',
      ''toLocaleString'', ''toString'', ''valueOf'', ''__proto__'',
      ''__defineGetter__'', ''__defineSetter__'', ''__lookupGetter__'', ''__lookupSetter__'']"

text \<open>
  \<^verbatim>\<open>accum[dep]\<close> as far as \<^verbatim>\<open>semver.validRange\<close> can tell: \<open>None\<close> for a missing key and for a
  key bound to \<^verbatim>\<open>undefined\<close>. For an inherited name the value read is not a string, and
  \<^verbatim>\<open>semver.validRange\<close> answers \<^verbatim>\<open>null\<close> for it as it does for \<^verbatim>\<open>undefined\<close>.
\<close>

definition index_get :: "raw_index \<Rightarrow> string \<Rightarrow> VersionSpec option" where
  "index_get m k = (case fmlookup m k of Some v \<Rightarrow> v | None \<Rightarrow> None)"

text \<open>
  \<^verbatim>\<open>semver.validRange(undefined)\<close> is \<^verbatim>\<open>null\<close>, so the conjunction is falsy there. With two
  valid ranges both minimum versions are computed and compared; a \<^verbatim>\<open>null\<close> minimum makes
  \<^verbatim>\<open>semver.gt\<close> throw.
\<close>

definition isGreaterThanSafe :: "'v semver \<Rightarrow> VersionSpec \<Rightarrow> VersionSpec option \<Rightarrow> error + bool" where
  "isGreaterThanSafe sv spec1 spec2 =
     (if \<not> validRange sv spec1 then Inr False
      else (case spec2 of
              None \<Rightarrow> Inr False
            | Some s2 \<Rightarrow>
                if \<not> validRange sv s2 then Inr False
                else (case minVersion sv spec1 of
                        None \<Rightarrow> Inl TypeError
                      | Some v1 \<Rightarrow>
                          (case minVersion sv s2 of
                             None \<Rightarrow> Inl TypeError
                           | Some v2 \<Rightarrow> Inr (gt sv v1 v2)))))"

text \<open>\<^verbatim>\<open>String.prototype.split\<close> with a one-character separator.\<close>

fun split_on :: "char \<Rightarrow> string \<Rightarrow> string list" where
  "split_on c [] = [[]]"
| "split_on c (x # xs) =
     (if x = c then [] # split_on c xs
      else (case split_on c xs of
              [] \<Rightarrow> [[x]]
            | w # ws \<Rightarrow> (x # w) # ws))"

text \<open>\<^verbatim>\<open>const [name, version] = pkgData.packageManager.split('@')\<close>\<close>

definition parsePackageManager :: "PackageFile \<Rightarrow> raw_index" where
  "parsePackageManager pkgData =
     (case packageManager pkgData of
        None \<Rightarrow> fmempty
      | Some pm \<Rightarrow>
          if pm = [] then fmempty
          else (case split_on CHR ''@'' pm of
                  [] \<Rightarrow> fmempty
                | [name] \<Rightarrow> fmupd name None fmempty
                | name # version # _ \<Rightarrow> fmupd name (Some version) fmempty))"

text \<open>
  \<^verbatim>\<open>filterObject(obj, predicate)\<close> applies the predicate to every entry and keeps the entries
  it accepts. A predicate may throw (\<open>None\<close>); then the call throws (\<open>None\<close>).
\<close>

definition filterObject ::
  "('k, 'a) fmap \<Rightarrow> ('k \<Rightarrow> 'a \<Rightarrow> bool option) \<Rightarrow> ('k, 'a) fmap option" where
  "filterObject obj p =
     (if fBex (fmdom obj) (\<lambda>k. case fmlookup obj k of Some v \<Rightarrow> p k v = None | None \<Rightarrow> False)
      then None
      else Some (fmfilter (\<lambda>k. case fmlookup obj k of Some v \<Rightarrow> p k v = Some True | None \<Rightarrow> False)
                   obj))"

text \<open>\<^verbatim>\<open>(pkgData[depSection] as Index<string>) || {}\<close>\<close>

definition sectionObject :: "PackageFile \<Rightarrow> string \<Rightarrow> (string, VersionSpec) fmap" where
  "sectionObject pkgData depSection =
     (case map_of (depObjects pkgData) depSection of
        Some obj \<Rightarrow> fmap_of_list obj
      | None \<Rightarrow> fmempty)"

text \<open>\<^verbatim>\<open>(dep, spec) => !isGreaterThanSafe(spec, accum[dep])\<close>\<close>

definition notGreater :: "'v semver \<Rightarrow> raw_index \<Rightarrow> string \<Rightarrow> VersionSpec \<Rightarrow> bool option" where
  "notGreater sv accum dep spec =
     (case isGreaterThanSafe sv spec (index_get accum dep) of
        Inl e \<Rightarrow> None
      | Inr b \<Rightarrow> Some (\<not> b))"

text \<open>
  One step of the \<^verbatim>\<open>reduce\<close> over the sections: \<^verbatim>\<open>{...accum, ...section}\<close>. The \<^verbatim>\<open>reduce\<close>
  is outside the \<^verbatim>\<open>try\<close> block, so the \<^verbatim>\<open>TypeError\<close> of a comparison leaves
  \<^verbatim>\<open>getCurrentDependencies\<close> as it is.
\<close>

definition mergeSection ::
  "'v semver \<Rightarrow> PackageFile \<Rightarrow> raw_index \<Rightarrow> string \<Rightarrow> error + raw_index" where
  "mergeSection sv pkgData accum depSection =
     (if depSection = ''packageManager'' then Inr (accum ++\<^sub>f parsePackageManager pkgData)
      else (case filterObject (sectionObject pkgData depSection) (notGreater sv accum) of
              None \<Rightarrow> Inl TypeError
            | Some section \<Rightarrow> Inr (accum ++\<^sub>f fmmap Some section)))"

fun mergeSections ::
  "'v semver \<Rightarrow> PackageFile \<Rightarrow> raw_index \<Rightarrow> string list \<Rightarrow> error + raw_index" where
  "mergeSections sv pkgData accum [] = Inr accum"
| "mergeSections sv pkgData accum (depSection # rest) =
     (case mergeSection sv pkgData accum depSection of
        Inl e \<Rightarrow> Inl e
      | Inr accum' \<Rightarrow> mergeSections sv pkgData accum' rest)"

definition allDependencies ::
  "'v semver \<Rightarrow> PackageFile \<Rightarrow> string list \<Rightarrow> error + raw_index" where
  "allDependencies sv pkgData secs = mergeSections sv pkgData fmempty secs"

text \<open>
  \<^verbatim>\<open>workspacePackageMap[name]\<close> as a condition. \<^verbatim>\<open>keyValueBy\<close> makes a plain object with the
  names of \<^verbatim>\<open>options.workspacePackages\<close> as keys, all bound to \<^verbatim>\<open>true\<close>; the property read
  is truthy for them and for the names inherited from \<^verbatim>\<open>Object.prototype\<close>.
\<close>

definition workspacePackageMap :: "Options \<Rightarrow> string \<Rightarrow> bool" where
  "workspacePackageMap options name =
     (name \<in> set (case workspacePackages options of Some l \<Rightarrow> l | None \<Rightarrow> [])
      \<or> name \<in> set objectPrototypeNames)"

text \<open>
  \<^verbatim>\<open>(name, version) => !workspacePackageMap[name] && !version.startsWith('catalog:')\<close>; the
  method call throws on a version that is \<^verbatim>\<open>undefined\<close>, when the first conjunct lets it
  be reached.
\<close>

definition notWorkspaceNorCatalog :: "Options \<Rightarrow> string \<Rightarrow> VersionSpec option \<Rightarrow> bool option" where
  "notWorkspaceNorCatalog options name version =
     (if workspacePackageMap options name then Some False
      else (case version of
              None \<Rightarrow> None
            | Some v \<Rightarrow> Some (\<not> prefix ''catalog:'' v)))"

definition specOf :: "VersionSpec option \<Rightarrow> VersionSpec" where
  "specOf v = (case v of Some s \<Rightarrow> s | None \<Rightarrow> [])"

text \<open>
  The filter stage runs inside \<^verbatim>\<open>try\<close>: whatever one of the two predicates throws ends in
  \<^verbatim>\<open>programError\<close>, which does not return. The entries that pass the first filter have a
  version that is a string.
\<close>

definition getCurrentDependencies ::
  "'v semver \<Rightarrow> PackageFile \<Rightarrow> Options \<Rightarrow> error + (string, VersionSpec) fmap" where
  "getCurrentDependencies sv pkgData options =
     (case allDependencies sv pkgData (depSections options) of
        Inl e \<Rightarrow> Inl e
      | Inr all \<Rightarrow>
          (case filterObject all (notWorkspaceNorCatalog options) of
             None \<Rightarrow> Inl ProgramError
           | Some own \<Rightarrow>
               (case filterObject (fmmap specOf own) (filterAndReject options) of
                  None \<Rightarrow> Inl ProgramError
                | Some filteredDependencies \<Rightarrow> Inr filteredDependencies)))"

text \<open>The version a returned map holds for one name, or the error of the call.\<close>

definition currentVersion ::
  "error + (string, VersionSpec) fmap \<Rightarrow> string \<Rightarrow> error + VersionSpec option" where
  "currentVersion r name = (case r of Inl e \<Rightarrow> Inl e | Inr m \<Rightarrow> Inr (fmlookup m name))"

subsection \<open>Sample inputs\<close>

text \<open>
  A table instance of the \<^verbatim>\<open>semver\<close> parameter. On the strings it accepts it agrees with
  node-semver: \<^verbatim>\<open>minVersion('^1.0.0')\<close> and \<^verbatim>\<open>minVersion('~1.0.0')\<close> are 1.0.0,
  \<^verbatim>\<open>minVersion('^2.0.0')\<close> is 2.0.0, an exact version is its own minimum,
  \<^verbatim>\<open>minVersion('<0.0.0-0')\<close> is \<^verbatim>\<open>null\<close>, and \<^verbatim>\<open>validRange\<close> of a URL, a git reference or
  \<^verbatim>\<open>catalog:\<close> is \<^verbatim>\<open>null\<close>.
\<close>

definition sample_semver :: "(nat \<times> nat \<times> nat) semver" where
  "sample_semver =
     \<lparr> validRange = (\<lambda>s. s \<in> set [''^1.0.0'', ''^2.0.0'', ''~1.0.0'', ''8.0.0'', ''9.0.0'',
                                     ''<0.0.0-0'']),
       minVersion = (\<lambda>s. if s = ''^2.0.0'' then Some (2, 0, 0)
                          else if s = ''8.0.0'' then Some (8, 0, 0)
                          else if s = ''9.0.0'' then Some (9, 0, 0)
                          else if s = ''<0.0.0-0'' then None
                          else Some (1, 0, 0)),
       gt = (\<lambda>(a1, a2, a3) (b1, b2, b3).
               b1 < a1 \<or> (b1 = a1 \<and> (b2 < a2 \<or> (b2 = a2 \<and> b3 < a3)))) \<rparr>"

definition manifest_react :: PackageFile where
  "manifest_react =
     \<lparr> packageManager = None,
       depObjects =
         [(''dependencies'', [(''react'', ''^2.0.0'')]),
          (''devDependencies'', [(''react'', ''^1.0.0'')])] \<rparr>"

definition options_of :: "string list \<Rightarrow> string list option \<Rightarrow> Options" where
  "options_of secs ws =
     \<lparr> depSections = secs, workspacePackages = ws, filterAndReject = (\<lambda>_ _. Some True),
       packageManagerOption = Some ''pnpm'', upgrade = True \<rparr>"

definition manifest_catalog :: PackageFile where
  "manifest_catalog =
     \<lparr> packageManager = None,
       depObjects =
         [(''dependencies'',
             [(''lodash'', ''catalog:''), (''axios'', ''catalog:mobile''), (''react'', ''^1.0.0'')])] \<rparr>"

definition manifest_mixed :: PackageFile where
  "manifest_mixed =
     \<lparr> packageManager = None,
       depObjects =
         [(''dependencies'', [(''a'', ''^1.0.0''), (''b'', ''^1.0.0'')]),
          (''devDependencies'', [(''a'', ''github:user/repo''), (''b'', ''~1.0.0'')])] \<rparr>"

definition manifest_pm :: PackageFile where
  "manifest_pm =
     \<lparr> packageManager = Some ''npm@9.0.0'',
       depObjects = [(''devDependencies'', [(''npm'', ''8.0.0'')])] \<rparr>"

definition manifest_catalog_twice :: PackageFile where
  "manifest_catalog_twice =
     \<lparr> packageManager = None,
       depObjects =
         [(''dependencies'', [(''x'', ''catalog:'')]),
          (''devDependencies'', [(''x'', ''^1.0.0'')])] \<rparr>"

definition manifest_unsatisfiable :: PackageFile where
  "manifest_unsatisfiable =
     \<lparr> packageManager = None,
       depObjects =
         [(''dependencies'', [(''a'', ''^1.0.0'')]),
          (''devDependencies'', [(''a'', ''<0.0.0-0'')])] \<rparr>"

section \<open>The catalog patcher: upgradeCatalogData\<close>

text \<open>
  The packages \<^verbatim>\<open>yaml\<close> and \<^verbatim>\<open>jsonc-parser\<close> are external libraries. What they compute on
  a parsed document is modelled on a document tree; the functions between text and tree
  (\<^verbatim>\<open>parseDocument\<close>, \<^verbatim>\<open>toString\<close>, \<^verbatim>\<open>parseTree\<close>, \<^verbatim>\<open>modify\<close> with \<^verbatim>\<open>applyEdits\<close>) are
  parameters, so the text type \<open>'t\<close> is left open. Objects list their members in file order;
  a key is looked up at its first occurrence.
\<close>

subsection \<open>Documents\<close>

text \<open>
  A parsed document, for both formats. \<open>Num\<close> holds integer literals only; no function
  modelled here looks inside a number.
\<close>

datatype node =
    Null
  | Bool bool
  | Num int
  | Str string
  | Arr "node list"
  | Obj "(string \<times> node) list"

text \<open>
  \<^verbatim>\<open>doc.getIn(path)\<close> of \<^verbatim>\<open>yaml\<close> and \<^verbatim>\<open>findNodeAtLocation(root, path)\<close> of \<^verbatim>\<open>jsonc-parser\<close>
  for a path of keys: \<open>None\<close> is \<^verbatim>\<open>undefined\<close>. A key does not select inside an array or a
  scalar.
\<close>

fun getIn :: "node \<Rightarrow> string list \<Rightarrow> node option" where
  "getIn n [] = Some n"
| "getIn (Obj kvs) (k # ks) = (case map_of kvs k of None \<Rightarrow> None | Some c \<Rightarrow> getIn c ks)"
| "getIn _ (k # ks) = None"

text \<open>
  \<^verbatim>\<open>doc.setIn(path, value)\<close>, and the effect of \<^verbatim>\<open>modify\<close> with \<^verbatim>\<open>applyEdits\<close> on the parse
  tree. The value at an existing path is replaced in place. A missing key is added at the end
  of its object; the sources call both functions only for paths they have located, and the
  theorems below use this function only there. The libraries reject a path that runs into a
  scalar or an array, which the model leaves unchanged.
\<close>

fun setIn :: "node \<Rightarrow> string list \<Rightarrow> node \<Rightarrow> node" where
  "setIn n [] v = v"
| "setIn (Obj kvs) (k # ks) v =
     Obj (AList.update k (setIn (case map_of kvs k of None \<Rightarrow> Obj [] | Some c \<Rightarrow> c) ks v) kvs)"
| "setIn n (k # ks) v = n"

text \<open>Two paths diverge when they differ at a position that both have.\<close>

fun diverge :: "string list \<Rightarrow> string list \<Rightarrow> bool" where
  "diverge (a # p) (b # q) = (if a = b then diverge p q else True)"
| "diverge _ _ = False"

subsection \<open>The libraries as parameters\<close>

text \<open>
  \<^verbatim>\<open>current\<close> is only looked up, so it is the finite map of its own properties; \<^verbatim>\<open>upgraded\<close>
  is iterated with \<^verbatim>\<open>Object.entries\<close>, so it is the list that \<^verbatim>\<open>Object.entries(upgraded)\<close>
  returns, with distinct keys.
\<close>

type_synonym Index = "(string, VersionSpec) fmap"

text \<open>
  \<^verbatim>\<open>parseDocument\<close> returns \<open>None\<close> for a text with syntax errors: the library records the
  errors in the document and \<^verbatim>\<open>doc.toString()\<close> then throws. \<^verbatim>\<open>parseTree\<close> returns \<open>None\<close>
  (\<^verbatim>\<open>undefined\<close>) where it finds no value. \<open>modifyApply j text path value\<close> is
  \<^verbatim>\<open>applyEdits(text, modify(text, path, value, modificationOptions))\<close>.
\<close>

record 't yaml_lib =
  parseDocument :: "'t \<Rightarrow> node option"
  toString :: "node \<Rightarrow> 't"

record 't jsonc_lib =
  parseTree :: "'t \<Rightarrow> node option"
  modifyApply :: "'t \<Rightarrow> string list \<Rightarrow> VersionSpec \<Rightarrow> 't"

subsection \<open>upgradeYamlCatalogData\<close>

text \<open>
  \<^verbatim>\<open>current[dep]\<close> as a condition. \<^verbatim>\<open>current\<close> is a plain object: an own property is truthy
  unless it is the empty string, and a name that is not an own property is truthy when it
  is inherited from \<^verbatim>\<open>Object.prototype\<close>.
\<close>

definition truthy :: "Index \<Rightarrow> string \<Rightarrow> bool" where
  "truthy current dep =
     (case fmlookup current dep of
        None \<Rightarrow> dep \<in> set objectPrototypeNames
      | Some s \<Rightarrow> s \<noteq> [])"

text \<open>\<^verbatim>\<open>if (doc.getIn(path) !== undefined) doc.setIn(path, newVersion)\<close>\<close>

definition setIfPresent :: "node \<Rightarrow> string list \<Rightarrow> VersionSpec \<Rightarrow> node" where
  "setIfPresent doc path newVersion =
     (if getIn doc path \<noteq> None then setIn doc path (Str newVersion) else doc)"

text \<open>The body of the \<^verbatim>\<open>forEach\<close>, for one entry of \<^verbatim>\<open>upgraded\<close>.\<close>

definition yamlStep :: "string \<Rightarrow> node \<Rightarrow> string \<times> VersionSpec \<Rightarrow> node" where
  "yamlStep catalogName doc e =
     (case e of (dep, newVersion) \<Rightarrow>
        if catalogName = ''default''
        then setIfPresent (setIfPresent doc [''catalog'', dep] newVersion)
               [''catalogs'', ''default'', dep] newVersion
        else setIfPresent doc [''catalogs'', catalogName, dep] newVersion)"

definition upgradeYamlCatalogData ::
  "'t yaml_lib \<Rightarrow> 't \<Rightarrow> string \<Rightarrow> Index \<Rightarrow> (string \<times> VersionSpec) list \<Rightarrow> error + 't" where
  "upgradeYamlCatalogData y fileContent catalogName current upgraded =
     (case parseDocument y fileContent of
        None \<Rightarrow> Inl YamlStringifyError
      | Some doc \<Rightarrow>
          Inr (toString y
                 (foldl (yamlStep catalogName) doc
                    (filter (\<lambda>(dep, _). truthy current dep) upgraded))))"

subsection \<open>upgradeJsonCatalogData\<close>

text \<open>\<^verbatim>\<open>findNodeAtLocation(fileRoot!, path)\<close>; it returns \<^verbatim>\<open>undefined\<close> for a missing root.\<close>

definition findNodeAtLocation :: "node option \<Rightarrow> string list \<Rightarrow> node option" where
  "findNodeAtLocation root path = (case root of None \<Rightarrow> None | Some r \<Rightarrow> getIn r path)"

fun isArray :: "node \<Rightarrow> bool" where
  "isArray (Arr _) = True"
| "isArray _ = False"

definition hasWorkspacesCatalogs :: "node option \<Rightarrow> bool" where
  "hasWorkspacesCatalogs fileRoot =
     (case findNodeAtLocation fileRoot [''workspaces''] of
        None \<Rightarrow> False
      | Some workspaceNode \<Rightarrow>
          \<not> isArray workspaceNode \<and>
          (findNodeAtLocation (Some workspaceNode) [''catalog''] \<noteq> None \<or>
           findNodeAtLocation (Some workspaceNode) [''catalogs''] \<noteq> None))"

text \<open>\<^verbatim>\<open>catalogName ? ['catalogs', catalogName, dep] : ['catalog', dep]\<close>\<close>

definition keyPathOf :: "string \<Rightarrow> string \<Rightarrow> string list" where
  "keyPathOf catalogName dep =
     (if catalogName \<noteq> [] then [''catalogs'', catalogName, dep] else [''catalog'', dep])"

text \<open>
  The body of the \<^verbatim>\<open>reduce\<close>. Both edits are computed from \<^verbatim>\<open>content\<close>, as in the source;
  \<^verbatim>\<open>fileRoot\<close> is the tree of the text the function was called with. \<^verbatim>\<open>current[dep]\<close> equals
  the new version only as an own property: an inherited member is not a string.
\<close>

definition jsonStep ::
  "'t jsonc_lib \<Rightarrow> node option \<Rightarrow> bool \<Rightarrow> string \<Rightarrow> Index \<Rightarrow> 't \<Rightarrow> string \<times> VersionSpec \<Rightarrow> 't" where
  "jsonStep j fileRoot hasWs catalogName current content e =
     (case e of (dep, newVersion) \<Rightarrow>
        if fmlookup current dep = Some newVersion then content
        else
          let keyPath = keyPathOf catalogName dep;
              endResult = content;
              endResult =
                (if findNodeAtLocation fileRoot keyPath \<noteq> None
                 then modifyApply j content keyPath newVersion else endResult);
              endResult =
                (if hasWs \<and> findNodeAtLocation fileRoot (''workspaces'' # keyPath) \<noteq> None
                 then modifyApply j content (''workspaces'' # keyPath) newVersion
                 else endResult)
          in endResult)"

definition upgradeJsonCatalogData ::
  "'t jsonc_lib \<Rightarrow> 't \<Rightarrow> string \<Rightarrow> Index \<Rightarrow> (string \<times> VersionSpec) list \<Rightarrow> 't" where
  "upgradeJsonCatalogData j fileContent catalogName current upgraded =
     (let fileRoot = parseTree j fileContent
      in foldl (jsonStep j fileRoot (hasWorkspacesCatalogs fileRoot) catalogName current)
           fileContent upgraded)"

subsection \<open>upgradeCatalogData\<close>

definition upgradeCatalogData ::
  "'t yaml_lib \<Rightarrow> 't jsonc_lib \<Rightarrow> 't \<Rightarrow> string \<Rightarrow> string \<Rightarrow> Index \<Rightarrow>
     (string \<times> VersionSpec) list \<Rightarrow> error + 't" where
  "upgradeCatalogData y j fileContent fileExtension catalogName current upgraded =
     (if fileExtension = ''.yaml'' \<or> fileExtension = ''.yml''
      then upgradeYamlCatalogData y fileContent catalogName current upgraded
      else if fileExtension = ''.json''
      then Inr (upgradeJsonCatalogData j fileContent catalogName current upgraded)
      else Inl (UnsupportedCatalogFileType fileExtension))"

subsection \<open>Sample libraries and documents\<close>

text \<open>
  An instance of the libraries in which a text is its own document tree: parsing and printing
  are the identity, and an edit of the text is the assignment in the tree.
\<close>

definition tree_yaml :: "node yaml_lib" where
  "tree_yaml = \<lparr> parseDocument = Some, toString = (\<lambda>d. d) \<rparr>"

definition tree_jsonc :: "node jsonc_lib" where
  "tree_jsonc = \<lparr> parseTree = Some, modifyApply = (\<lambda>t p v. setIn t p (Str v)) \<rparr>"

text \<open>A \<^verbatim>\<open>package.json\<close> that defines \<^verbatim>\<open>foo\<close> in \<^verbatim>\<open>catalog\<close> and in \<^verbatim>\<open>workspaces.catalog\<close>.\<close>

definition doc_dual :: node where
  "doc_dual =
     Obj [(''name'', Str ''root''),
          (''catalog'', Obj [(''foo'', Str ''1.0.0'')]),
          (''workspaces'',
             Obj [(''packages'', Arr [Str ''packages/*'']),
                  (''catalog'', Obj [(''foo'', Str ''1.0.0'')])])]"

text \<open>An \<^verbatim>\<open>Index\<close> given by its entries.\<close>

definition index_of :: "(string \<times> VersionSpec) list \<Rightarrow> Index" where
  "index_of kvs = fmap_of_list kvs"

text \<open>A \<^verbatim>\<open>pnpm-workspace.yaml\<close> with a flat catalog and two named catalogs.\<close>

definition doc_workspace :: node where
  "doc_workspace =
     Obj [(''packages'', Arr [Str ''packages/*'']),
          (''catalog'', Obj [(''lodash'', Str ''4.17.20''), (''foo'', Str ''1.0.0'')]),
          (''catalogs'',
             Obj [(''mobile'', Obj [(''axios'', Str ''1.0.0'')]),
                  (''web'', Obj [(''axios'', Str ''1.0.0'')])])]"

text \<open>
  A \<^verbatim>\<open>pnpm-workspace.yaml\<close> whose catalog defines the package \<^verbatim>\<open>constructor\<close>.
\<close>

definition doc_constructor :: node where
  "doc_constructor =
     Obj [(''packages'', Arr [Str ''packages/*'']),
          (''catalog'', Obj [(''constructor'', Str ''1.0.0'')])]"

subsection \<open>Runs as sequences of assignments\<close>

text \<open>
  A run of the patcher on the document tree is a sequence of conditional leaf assignments.
\<close>

definition applyOps :: "node \<Rightarrow> (string list \<times> VersionSpec) list \<Rightarrow> node" where
  "applyOps doc ops = foldl (\<lambda>d (p, v). setIfPresent d p v) doc ops"

text \<open>Two target paths of one run are the same path or part ways at some key.\<close>

definition separated :: "(string list \<times> VersionSpec) list \<Rightarrow> bool" where
  "separated ops =
     list_all (\<lambda>(p, v). list_all (\<lambda>(q, w). (q, w) = (p, v) \<or> diverge q p) ops) ops"

text \<open>The assignments one entry of \<^verbatim>\<open>upgraded\<close> stands for in the YAML path.\<close>

definition yamlOps :: "string \<Rightarrow> (string \<times> VersionSpec) list \<Rightarrow> (string list \<times> VersionSpec) list" where
  "yamlOps catalogName upgraded =
     concat (map (\<lambda>(dep, newVersion).
                if catalogName = ''default''
                then [([''catalog'', dep], newVersion), ([''catalogs'', ''default'', dep], newVersion)]
                else [([''catalogs'', catalogName, dep], newVersion)]) upgraded)"

text \<open>The single location one entry of \<^verbatim>\<open>upgraded\<close> ends up writing in the JSON path, if any.\<close>

definition jsonTarget ::
  "node \<Rightarrow> bool \<Rightarrow> string \<Rightarrow> Index \<Rightarrow> string \<times> VersionSpec \<Rightarrow> string list option" where
  "jsonTarget root hasWs catalogName current e =
     (case e of (dep, newVersion) \<Rightarrow>
        if fmlookup current dep = Some newVersion then None
        else if hasWs \<and> getIn root (''workspaces'' # keyPathOf catalogName dep) \<noteq> None
        then Some (''workspaces'' # keyPathOf catalogName dep)
        else if getIn root (keyPathOf catalogName dep) \<noteq> None
        then Some (keyPathOf catalogName dep)
        else None)"

definition jsonOps ::
  "node \<Rightarrow> bool \<Rightarrow> string \<Rightarrow> Index \<Rightarrow> (string \<times> VersionSpec) list \<Rightarrow>
     (string list \<times> VersionSpec) list" where
  "jsonOps root hasWs catalogName current upgraded =
     concat (map (\<lambda>e. case jsonTarget root hasWs catalogName current e of
                         None \<Rightarrow> []
                       | Some p \<Rightarrow> [(p, snd e)]) upgraded)"

text \<open>
  What the proofs assume of the two libraries. Printing a YAML document and parsing the
  result gives the document back. A \<^verbatim>\<open>modify\<close>/\<^verbatim>\<open>applyEdits\<close> pair at a located path
  assigns the value in the parse tree, and leaves the text alone when the tree already holds
  that string there.
\<close>

definition yaml_roundtrip :: "'t yaml_lib \<Rightarrow> bool" where
  "yaml_roundtrip y = (\<forall>d. parseDocument y (toString y d) = Some d)"

definition jsonc_sound :: "'t jsonc_lib \<Rightarrow> bool" where
  "jsonc_sound j =
     (\<forall>t d p v. parseTree j t = Some d \<and> getIn d p \<noteq> None \<longrightarrow>
        parseTree j (modifyApply j t p v) = Some (setIn d p (Str v)))"

definition jsonc_stable :: "'t jsonc_lib \<Rightarrow> bool" where
  "jsonc_stable j =
     (\<forall>t d p v. parseTree j t = Some d \<and> getIn d p = Some (Str v) \<longrightarrow>
        modifyApply j t p v = t)"

text \<open>The paths a run for catalog \<open>catalogName\<close> may write, and documents that locate the same ones.\<close>

definition isTarget :: "string \<Rightarrow> string list \<Rightarrow> bool" where
  "isTarget catalogName p =
     (\<exists>dep. p = keyPathOf catalogName dep \<or> p = ''workspaces'' # keyPathOf catalogName dep)"

definition sameTargets :: "string \<Rightarrow> node \<Rightarrow> node \<Rightarrow> bool" where
  "sameTargets catalogName r r' =
     (\<forall>p. isTarget catalogName p \<longrightarrow> (getIn r p = None \<longleftrightarrow> getIn r' p = None))"

section \<open>Catalog orchestration: processCatalogs and its collaborators\<close>

subsection \<open>Ordered objects and JavaScript values\<close>

text \<open>
  Where the code iterates an object, the object is the list of its own properties in the
  order in which they were created. \<open>objAssign\<close> is \<^verbatim>\<open>Object.assign\<close> and the spread
  \<^verbatim>\<open>{...a, ...b}\<close>: an existing key keeps its place, a new key goes to the end.
\<close>

type_synonym 'a obj = "(string \<times> 'a) list"

definition objAssign :: "'a obj \<Rightarrow> 'a obj \<Rightarrow> 'a obj" where
  "objAssign a b = foldl (\<lambda>m (k, v). AList.update k v m) a b"

text \<open>
  \<^verbatim>\<open>Object.entries\<close>, \<^verbatim>\<open>Object.keys\<close> and \<^verbatim>\<open>for...of\<close> over them visit the keys that are
  array indices first, in ascending numeric order, and then the other keys in creation
  order. An array index is the canonical decimal numeral of an integer below 4294967295.
\<close>

definition decimalValue :: "string \<Rightarrow> nat" where
  "decimalValue k = foldl (\<lambda>n c. 10 * n + (of_char c - 48)) 0 k"

definition arrayIndex :: "string \<Rightarrow> nat option" where
  "arrayIndex k =
     (if k = [] then None
      else if list_all (\<lambda>c. c \<in> set ''0123456789'') k
              \<and> (if hd k = CHR ''0'' then k = ''0'' else True)
              \<and> decimalValue k < 4294967295
      then Some (decimalValue k) else None)"

definition objectEntries :: "'a obj \<Rightarrow> 'a obj" where
  "objectEntries obj =
     sort_key (\<lambda>(k, v). case arrayIndex k of Some i \<Rightarrow> i | None \<Rightarrow> 0)
       (filter (\<lambda>(k, v). arrayIndex k \<noteq> None) obj)
     @ filter (\<lambda>(k, v). arrayIndex k = None) obj"

text \<open>
  \<^verbatim>\<open>filterObject\<close> on an object whose order matters. A predicate may throw (\<open>None\<close>); then
  the call throws (\<open>None\<close>).
\<close>

definition filterEntries :: "'a obj \<Rightarrow> (string \<Rightarrow> 'a \<Rightarrow> bool option) \<Rightarrow> 'a obj option" where
  "filterEntries obj p =
     (if list_ex (\<lambda>(k, v). p k v = None) obj then None
      else Some (filter (\<lambda>(k, v). p k v = Some True) obj))"

text \<open>Truthiness of a value read from parsed JSON or YAML data; \<open>None\<close> is \<^verbatim>\<open>undefined\<close>.\<close>

fun jsTruthy :: "node option \<Rightarrow> bool" where
  "jsTruthy None = False"
| "jsTruthy (Some Null) = False"
| "jsTruthy (Some (Bool b)) = b"
| "jsTruthy (Some (Num i)) = (i \<noteq> 0)"
| "jsTruthy (Some (Str s)) = (s \<noteq> [])"
| "jsTruthy (Some (Arr _)) = True"
| "jsTruthy (Some (Obj _)) = True"

text \<open>Property access on a value that is known to be truthy.\<close>

fun jsProp :: "node option \<Rightarrow> string \<Rightarrow> node option" where
  "jsProp (Some (Obj kvs)) k = map_of kvs k"
| "jsProp _ k = None"

fun isArrayValue :: "node option \<Rightarrow> bool" where
  "isArrayValue (Some (Arr _)) = True"
| "isArrayValue _ = False"

text \<open>A catalog read from parsed data as \<^verbatim>\<open>Index<VersionSpec>\<close>: the string members of an object.\<close>

fun stringEntries :: "node \<Rightarrow> VersionSpec obj" where
  "stringEntries (Obj kvs) = concat (map (\<lambda>(k, v). case v of Str s \<Rightarrow> [(k, s)] | _ \<Rightarrow> []) kvs)"
| "stringEntries _ = []"

fun catalogEntries :: "node \<Rightarrow> (VersionSpec obj) obj" where
  "catalogEntries (Obj kvs) = map (\<lambda>(k, v). (k, stringEntries v)) kvs"
| "catalogEntries _ = []"

subsection \<open>readCatalogDependencies\<close>

text \<open>
  \<^verbatim>\<open>readCatalogDependencies\<close> on the parsed files: \<open>pnpmWorkspaces\<close> is the result of
  \<^verbatim>\<open>readPnpmWorkspaces\<close> (\<open>None\<close> when the file cannot be read), \<open>packageData\<close> the parsed
  \<^verbatim>\<open>package.json\<close> (\<open>None\<close> for \<^verbatim>\<open>ENOENT\<close>, which makes the function return \<^verbatim>\<open>null\<close>).
  The result \<open>None\<close> is \<^verbatim>\<open>null\<close>. Reading a property of a \<^verbatim>\<open>package.json\<close> that parses to
  \<^verbatim>\<open>null\<close> throws.
\<close>

definition mergeCatalog :: "(VersionSpec obj) obj \<Rightarrow> string \<Rightarrow> VersionSpec obj \<Rightarrow> (VersionSpec obj) obj" where
  "mergeCatalog catalogDependencies catalogName catalogDeps =
     AList.update catalogName
       (objAssign (case map_of catalogDependencies catalogName of None \<Rightarrow> [] | Some old \<Rightarrow> old)
          catalogDeps)
       catalogDependencies"

definition mergeCatalogs :: "(VersionSpec obj) obj \<Rightarrow> (VersionSpec obj) obj \<Rightarrow> (VersionSpec obj) obj" where
  "mergeCatalogs catalogDependencies catalogs =
     foldl (\<lambda>acc (catalogName, catalogDeps). mergeCatalog acc catalogName catalogDeps)
       catalogDependencies catalogs"

definition readCatalogDependencies ::
  "Options \<Rightarrow> node option \<Rightarrow> node option \<Rightarrow> error + (VersionSpec obj) obj option" where
  "readCatalogDependencies options pnpmWorkspaces packageData =
     (let cd0 =
            (if packageManagerOption options = Some ''pnpm''
                \<and> jsTruthy pnpmWorkspaces \<and> \<not> isArrayValue pnpmWorkspaces
                \<and> jsTruthy (jsProp pnpmWorkspaces ''catalogs'')
             then objAssign []
                    (case jsProp pnpmWorkspaces ''catalogs'' of
                       Some c \<Rightarrow> catalogEntries c | None \<Rightarrow> [])
             else [])
      in case packageData of
           None \<Rightarrow> Inr None
         | Some Null \<Rightarrow> Inl TypeError
         | Some pd \<Rightarrow>
             let cd1 =
                   (if jsTruthy (jsProp (Some pd) ''catalog'')
                    then mergeCatalog cd0 ''default''
                           (case jsProp (Some pd) ''catalog'' of
                              Some c \<Rightarrow> stringEntries c | None \<Rightarrow> [])
                    else cd0);
                 cd2 =
                   (if jsTruthy (jsProp (Some pd) ''catalogs'')
                    then mergeCatalogs cd1
                           (case jsProp (Some pd) ''catalogs'' of
                              Some c \<Rightarrow> catalogEntries c | None \<Rightarrow> [])
                    else cd1);
                 ws = jsProp (Some pd) ''workspaces'';
                 cd3 =
                   (if jsTruthy ws \<and> \<not> isArrayValue ws
                    then
                      let cd3a =
                            (if jsTruthy (jsProp ws ''catalog'')
                             then mergeCatalog cd2 ''default''
                                    (case jsProp ws ''catalog'' of
                                       Some c \<Rightarrow> stringEntries c | None \<Rightarrow> [])
                             else cd2)
                      in (if jsTruthy (jsProp ws ''catalogs'')
                          then mergeCatalogs cd3a
                                 (case jsProp ws ''catalogs'' of
                                    Some c \<Rightarrow> catalogEntries c | None \<Rightarrow> [])
                          else cd3a)
                    else cd2)
             in Inr (if cd3 \<noteq> [] then Some cd3 else None))"

subsection \<open>getCatalogDependencies\<close>

text \<open>
  \<^verbatim>\<open>pkgData['packageManager']\<close> is a string; none of its entries starts with \<^verbatim>\<open>catalog:\<close>, so
  that section adds nothing. The filter stage is the one of \<^verbatim>\<open>getCurrentDependencies\<close>
  without the test of the version: the names for which \<^verbatim>\<open>workspacePackageMap[name]\<close> is
  truthy are dropped, and a throwing \<^verbatim>\<open>filterAndReject\<close> predicate ends in
  \<^verbatim>\<open>programError\<close>.
\<close>

definition sectionEntries :: "PackageFile \<Rightarrow> string \<Rightarrow> VersionSpec obj" where
  "sectionEntries pkgData depSection =
     (if depSection = ''packageManager'' then []
      else (case map_of (depObjects pkgData) depSection of Some obj \<Rightarrow> obj | None \<Rightarrow> []))"

definition getCatalogDependencies :: "PackageFile \<Rightarrow> Options \<Rightarrow> error + string obj" where
  "getCatalogDependencies pkgData options =
     (let allDeps =
            foldl (\<lambda>accum depSection.
                     objAssign accum
                       (filter (\<lambda>(name, version). prefix ''catalog:'' version)
                          (sectionEntries pkgData depSection)))
              [] (depSections options)
      in case filterEntries (filter (\<lambda>(name, version). \<not> workspacePackageMap options name) allDeps)
                (filterAndReject options) of
           None \<Rightarrow> Inl ProgramError
         | Some filteredDependencies \<Rightarrow> Inr filteredDependencies)"

subsection \<open>The file system and the external collaborators\<close>

text \<open>
  Files hold text of the open type \<open>'t\<close>. Every \<^verbatim>\<open>fs.readFile\<close> and \<^verbatim>\<open>fs.writeFile\<close> is
  recorded in \<open>trace\<close>, oldest first. An effectful function returns the new file system
  together with its result or the error it throws, so that the state reached when an error
  is caught is known.
\<close>

datatype 't event = ReadFile string | WriteFile string 't

record 't fs =
  files :: "(string, 't) fmap"
  trace :: "'t event list"

definition readFile :: "string \<Rightarrow> 't fs \<Rightarrow> 't fs \<times> (error + 't)" where
  "readFile path s =
     (case fmlookup (files s) path of
        None \<Rightarrow> (s\<lparr>trace := trace s @ [ReadFile path]\<rparr>, Inl (NoSuchFile path))
      | Some content \<Rightarrow> (s\<lparr>trace := trace s @ [ReadFile path]\<rparr>, Inr content))"

definition writeFile :: "string \<Rightarrow> 't \<Rightarrow> 't fs \<Rightarrow> 't fs" where
  "writeFile path content s =
     s\<lparr>files := fmupd path content (files s), trace := trace s @ [WriteFile path content]\<rparr>"

text \<open>
  The collaborators that are not part of the repository's sources: the two parsers,
  \<^verbatim>\<open>JSON.parse\<close> (\<open>None\<close> when it throws), \<^verbatim>\<open>findUp\<close> for a file name from \<^verbatim>\<open>options.cwd\<close>,
  and the first component of the result of \<^verbatim>\<open>upgradePackageDefinitions\<close>.
\<close>

record 't env =
  yaml :: "'t yaml_lib"
  jsonc :: "'t jsonc_lib"
  jsonParse :: "'t \<Rightarrow> node option"
  findUp :: "string \<Rightarrow> string option"
  upgradePackageDefinitions :: "VersionSpec obj \<Rightarrow> VersionSpec obj"

text \<open>\<^verbatim>\<open>path.basename\<close> and \<^verbatim>\<open>path.extname\<close> for POSIX paths.\<close>

definition basename :: "string \<Rightarrow> string" where
  "basename p = rev (takeWhile (\<lambda>c. c \<noteq> CHR ''/'') (rev p))"

definition extname :: "string \<Rightarrow> string" where
  "extname p =
     (let b = basename p;
          e = rev (takeWhile (\<lambda>c. c \<noteq> CHR ''.'') (rev b))
      in if length e = length b \<or> length e + 1 = length b then [] else CHR ''.'' # e)"

subsection \<open>upgradeCatalogData, the variant that reads the file itself\<close>

text \<open>
  The earlier \<^verbatim>\<open>upgradeCatalogData(filePath, catalogName, current, upgraded)\<close>, which
  \<^verbatim>\<open>processCatalogs\<close> calls. After reading the file its YAML path is the one above. Its JSON
  path chooses the key path by \<^verbatim>\<open>catalogName === 'default'\<close> and tests the
  \<^verbatim>\<open>workspaces\<close> members on the \<^verbatim>\<open>JSON.parse\<close>d data. Here \<^verbatim>\<open>upgraded\<close> is an object, which
  both paths iterate with \<^verbatim>\<open>Object.entries\<close>.
\<close>

definition upgradeYamlCatalogDataFile ::
  "'t env \<Rightarrow> string \<Rightarrow> string \<Rightarrow> Index \<Rightarrow> VersionSpec obj \<Rightarrow> 't fs \<Rightarrow> 't fs \<times> (error + 't)" where
  "upgradeYamlCatalogDataFile env filePath catalogName current upgraded s =
     (case readFile filePath s of
        (s', Inl e) \<Rightarrow> (s', Inl e)
      | (s', Inr fileContent) \<Rightarrow>
          (s', upgradeYamlCatalogData (yaml env) fileContent catalogName current
                 (objectEntries upgraded)))"

definition keyPathOfFile :: "string \<Rightarrow> string \<Rightarrow> string list" where
  "keyPathOfFile catalogName dep =
     (if catalogName = ''default'' then [''catalog'', dep] else [''catalogs'', catalogName, dep])"

definition jsonStepFile ::
  "'t jsonc_lib \<Rightarrow> node option \<Rightarrow> bool \<Rightarrow> bool \<Rightarrow> string \<Rightarrow> Index \<Rightarrow> 't \<Rightarrow>
     string \<times> VersionSpec \<Rightarrow> 't" where
  "jsonStepFile j fileRoot hasWorkspacesCatalog hasWorkspacesCatalogs' catalogName current content e =
     (case e of (dep, newVersion) \<Rightarrow>
        if fmlookup current dep = Some newVersion then content
        else
          let keyPath = keyPathOfFile catalogName dep;
              endResult = content;
              endResult =
                (if findNodeAtLocation fileRoot keyPath \<noteq> None
                 then modifyApply j content keyPath newVersion else endResult);
              endResult =
                (if ((hasWorkspacesCatalog \<and> catalogName = ''default'') \<or>
                     (hasWorkspacesCatalogs' \<and> catalogName \<noteq> ''default'')) \<and>
                    findNodeAtLocation fileRoot (''workspaces'' # keyPath) \<noteq> None
                 then modifyApply j content (''workspaces'' # keyPath) newVersion
                 else endResult)
          in endResult)"

text \<open>What \<^verbatim>\<open>upgradeJsonCatalogData\<close> does with the text it has read.\<close>

definition upgradeJsonCatalogText ::
  "'t env \<Rightarrow> string \<Rightarrow> Index \<Rightarrow> VersionSpec obj \<Rightarrow> 't \<Rightarrow> error + 't" where
  "upgradeJsonCatalogText env catalogName current upgraded fileContent =
     (case jsonParse env fileContent of
        None \<Rightarrow> Inl SyntaxError
      | Some Null \<Rightarrow> Inl TypeError
      | Some fileData \<Rightarrow>
          let fileRoot = parseTree (jsonc env) fileContent;
              ws = jsProp (Some fileData) ''workspaces'';
              hasWorkspacesCatalog =
                (jsTruthy ws \<and> \<not> isArrayValue ws \<and> jsTruthy (jsProp ws ''catalog''));
              hasWorkspacesCatalogs' =
                (jsTruthy ws \<and> \<not> isArrayValue ws \<and> jsTruthy (jsProp ws ''catalogs''))
          in Inr (foldl (jsonStepFile (jsonc env) fileRoot hasWorkspacesCatalog
                           hasWorkspacesCatalogs' catalogName current)
                    fileContent (objectEntries upgraded)))"

definition upgradeJsonCatalogDataFile ::
  "'t env \<Rightarrow> string \<Rightarrow> string \<Rightarrow> Index \<Rightarrow> VersionSpec obj \<Rightarrow> 't fs \<Rightarrow> 't fs \<times> (error + 't)" where
  "upgradeJsonCatalogDataFile env filePath catalogName current upgraded s =
     (case readFile filePath s of
        (s', Inl e) \<Rightarrow> (s', Inl e)
      | (s', Inr fileContent) \<Rightarrow>
          (s', upgradeJsonCatalogText env catalogName current upgraded fileContent))"

definition upgradeCatalogDataFile ::
  "'t env \<Rightarrow> string \<Rightarrow> string \<Rightarrow> Index \<Rightarrow> VersionSpec obj \<Rightarrow> 't fs \<Rightarrow> 't fs \<times> (error + 't)" where
  "upgradeCatalogDataFile env filePath catalogName current upgraded s =
     (let fileExtension = extname filePath
      in if fileExtension = ''.yaml'' \<or> fileExtension = ''.yml''
         then upgradeYamlCatalogDataFile env filePath catalogName current upgraded s
         else if fileExtension = ''.json''
         then upgradeJsonCatalogDataFile env filePath catalogName current upgraded s
         else (s, Inl (UnsupportedCatalogFileType filePath)))"

subsection \<open>processCatalogs\<close>

text \<open>
  \<^verbatim>\<open>catalogRef.replace('catalog:', '')\<close> with a string pattern removes the first occurrence
  of the pattern; a reference that \<^verbatim>\<open>getCatalogDependencies\<close> returns starts with it.
\<close>

fun removeFirst :: "string \<Rightarrow> string \<Rightarrow> string" where
  "removeFirst pat [] = []"
| "removeFirst pat (c # cs) =
     (if prefix pat (c # cs) then drop (length pat) (c # cs) else c # removeFirst pat cs)"

definition catalogNameOf :: "string \<Rightarrow> string" where
  "catalogNameOf catalogRef = removeFirst ''catalog:'' catalogRef"

text \<open>
  \<^verbatim>\<open>catalogReferences[catalogName].add(pkgName)\<close>, creating the set when the property read
  is falsy. \<^verbatim>\<open>catalogReferences\<close> is a plain object: for a catalog name inherited from
  \<^verbatim>\<open>Object.prototype\<close> the read is truthy, no set is created, and the call of \<^verbatim>\<open>add\<close>, which
  the value read does not have, throws a \<^verbatim>\<open>TypeError\<close>.
\<close>

definition addReference ::
  "(string list) obj \<Rightarrow> string \<Rightarrow> string \<Rightarrow> error + (string list) obj" where
  "addReference catalogReferences catalogName pkgName =
     (case map_of catalogReferences catalogName of
        None \<Rightarrow>
          if catalogName \<in> set objectPrototypeNames then Inl TypeError
          else Inr (catalogReferences @ [(catalogName, [pkgName])])
      | Some names \<Rightarrow>
          Inr (AList.update catalogName
                 (if pkgName \<in> set names then names else names @ [pkgName]) catalogReferences))"

text \<open>The \<^verbatim>\<open>forEach\<close> over the entries of one package's catalog dependencies.\<close>

fun addReferences :: "(string list) obj \<Rightarrow> string obj \<Rightarrow> error + (string list) obj" where
  "addReferences catalogReferences [] = Inr catalogReferences"
| "addReferences catalogReferences ((pkgName, catalogRef) # rest) =
     (case addReference catalogReferences (catalogNameOf catalogRef) pkgName of
        Inl e \<Rightarrow> Inl e
      | Inr catalogReferences' \<Rightarrow> addReferences catalogReferences' rest)"

text \<open>The \<^verbatim>\<open>for\<close> loop over the packages; it is outside any \<^verbatim>\<open>try\<close>.\<close>

fun collectReferences ::
  "Options \<Rightarrow> PackageFile list \<Rightarrow> (string list) obj \<Rightarrow> error + (string list) obj" where
  "collectReferences options [] catalogReferences = Inr catalogReferences"
| "collectReferences options (pkg # packageInfos) catalogReferences =
     (case getCatalogDependencies pkg options of
        Inl e \<Rightarrow> Inl e
      | Inr catalogDeps \<Rightarrow>
          (case addReferences catalogReferences (objectEntries catalogDeps) of
             Inl e \<Rightarrow> Inl e
           | Inr catalogReferences' \<Rightarrow>
               collectReferences options packageInfos catalogReferences'))"

text \<open>
  The upgrades of one referenced catalog: \<^verbatim>\<open>{}\<close> or \<^verbatim>\<open>{ [catalogName]: upgradedCatalogDeps }\<close>.
  The key \<^verbatim>\<open>catalog:<name>\<close> is no inherited name. The package names of a set come from
  \<^verbatim>\<open>getCatalogDependencies\<close>, which has dropped the inherited names, so \<^verbatim>\<open>catalogDeps[pkgName]\<close>
  reads an own property or \<^verbatim>\<open>undefined\<close>.
\<close>

definition upgradesOfCatalog ::
  "'t env \<Rightarrow> (VersionSpec obj) obj \<Rightarrow> string \<times> string list \<Rightarrow> (VersionSpec obj) obj" where
  "upgradesOfCatalog env catalogDependencies e =
     (case e of (catalogName, pkgNames) \<Rightarrow>
        (case map_of catalogDependencies (''catalog:'' @ catalogName) of
           None \<Rightarrow> []
         | Some catalogDeps \<Rightarrow>
             let referencedCatalogDeps =
                   foldl (\<lambda>acc pkgName.
                            case map_of catalogDeps pkgName of
                              None \<Rightarrow> acc
                            | Some v \<Rightarrow> if v \<noteq> [] then AList.update pkgName v acc else acc)
                     [] pkgNames;
                 upgradedCatalogDeps = upgradePackageDefinitions env referencedCatalogDeps
             in if upgradedCatalogDeps = [] then [] else [(catalogName, upgradedCatalogDeps)]))"

definition checkUpgrades ::
  "'t env \<Rightarrow> (VersionSpec obj) obj \<Rightarrow> (string list) obj \<Rightarrow> (VersionSpec obj) obj" where
  "checkUpgrades env catalogDependencies catalogReferences =
     foldl objAssign []
       (map (upgradesOfCatalog env catalogDependencies) (objectEntries catalogReferences))"

text \<open>A path as a condition: \<^verbatim>\<open>undefined\<close> and the empty string are falsy.\<close>

definition foundPath :: "string option \<Rightarrow> string option" where
  "foundPath p = (case p of None \<Rightarrow> None | Some q \<Rightarrow> if q = [] then None else Some q)"

text \<open>Finding the catalog file; the \<^verbatim>\<open>package.json\<close> candidate is read and parsed.\<close>

definition findCatalogFile ::
  "'t env \<Rightarrow> Options \<Rightarrow> 't fs \<Rightarrow> 't fs \<times> (error + string option)" where
  "findCatalogFile env options s =
     (let catalogFilePath =
            (if packageManagerOption options = Some ''pnpm''
             then foundPath (findUp env ''pnpm-workspace.yaml'') else None)
      in case catalogFilePath of
           Some p \<Rightarrow> (s, Inr (Some p))
         | None \<Rightarrow>
             (case foundPath (findUp env ''package.json'') of
                None \<Rightarrow> (s, Inr None)
              | Some packageJsonPath \<Rightarrow>
                  (case readFile packageJsonPath s of
                     (s', Inl e) \<Rightarrow> (s', Inl e)
                   | (s', Inr packageJsonContent) \<Rightarrow>
                       (case jsonParse env packageJsonContent of
                          None \<Rightarrow> (s', Inl SyntaxError)
                        | Some Null \<Rightarrow> (s', Inl TypeError)
                        | Some packageData \<Rightarrow>
                            let ws = jsProp (Some packageData) ''workspaces''
                            in if jsTruthy (jsProp (Some packageData) ''catalog'') \<or>
                                  jsTruthy (jsProp (Some packageData) ''catalogs'') \<or>
                                  (jsTruthy ws \<and> \<not> isArrayValue ws \<and>
                                   (jsTruthy (jsProp ws ''catalog'') \<or>
                                    jsTruthy (jsProp ws ''catalogs'')))
                               then (s', Inr (Some packageJsonPath))
                               else (s', Inr None)))))"

text \<open>
  The \<^verbatim>\<open>for\<close> loop of the \<^verbatim>\<open>try\<close> block, over the entries it visits: one
  \<^verbatim>\<open>upgradeCatalogData\<close> call and one \<^verbatim>\<open>fs.writeFile\<close> per catalog with upgrades. An error
  leaves the loop.
\<close>

fun updateCatalogs ::
  "'t env \<Rightarrow> string \<Rightarrow> (VersionSpec obj) obj \<Rightarrow> (VersionSpec obj) obj \<Rightarrow> 't fs \<Rightarrow>
     't fs \<times> (error + unit)" where
  "updateCatalogs env catalogFilePath catalogDependencies [] s = (s, Inr ())"
| "updateCatalogs env catalogFilePath catalogDependencies ((catalogName, upgradedDeps) # rest) s =
     (let currentCatalogDeps =
            (case map_of catalogDependencies (''catalog:'' @ catalogName) of
               None \<Rightarrow> [] | Some c \<Rightarrow> c)
      in if upgradedDeps \<noteq> []
         then
           let catalogNameForUpgrade = (if catalogName = [] then ''default'' else catalogName)
           in (case upgradeCatalogDataFile env catalogFilePath catalogNameForUpgrade
                      (fmap_of_list currentCatalogDeps) upgradedDeps s of
                 (s', Inl e) \<Rightarrow> (s', Inl e)
               | (s', Inr fileContent) \<Rightarrow>
                   updateCatalogs env catalogFilePath catalogDependencies rest
                     (writeFile catalogFilePath fileContent s'))
         else updateCatalogs env catalogFilePath catalogDependencies rest s)"

text \<open>The \<^verbatim>\<open>try\<close> block: the caught error is logged and not rethrown.\<close>

definition updateCatalogFile ::
  "'t env \<Rightarrow> string \<Rightarrow> (VersionSpec obj) obj \<Rightarrow> (VersionSpec obj) obj \<Rightarrow> 't fs \<Rightarrow> 't fs" where
  "updateCatalogFile env catalogFilePath catalogDependencies upgradedCatalogDeps s =
     (case readFile catalogFilePath s of
        (s', Inl e) \<Rightarrow> s'
      | (s', Inr fileContent) \<Rightarrow>
          fst (updateCatalogs env catalogFilePath catalogDependencies
                 (objectEntries upgradedCatalogDeps) s'))"

definition processCatalogs ::
  "'t env \<Rightarrow> Options \<Rightarrow> PackageFile list \<Rightarrow> (VersionSpec obj) obj option \<Rightarrow> 't fs \<Rightarrow>
     't fs \<times> (error + unit)" where
  "processCatalogs env options packageInfos catalogDependencies s =
     (case catalogDependencies of
        None \<Rightarrow> (s, Inr ())
      | Some cds \<Rightarrow>
          if cds = [] then (s, Inr ())
          else
            (case collectReferences options packageInfos [] of
               Inl e \<Rightarrow> (s, Inl e)
             | Inr catalogReferences \<Rightarrow>
                 if catalogReferences = [] then (s, Inr ())
                 else
                   let upgradedCatalogDeps = checkUpgrades env cds catalogReferences
                   in if upgradedCatalogDeps = [] then (s, Inr ())
                      else
                        (case findCatalogFile env options s of
                           (s', Inl e) \<Rightarrow> (s', Inl e)
                         | (s', Inr None) \<Rightarrow> (s', Inr ())
                         | (s', Inr (Some catalogFilePath)) \<Rightarrow>
                             if upgrade options
                             then (updateCatalogFile env catalogFilePath cds
                                     upgradedCatalogDeps s', Inr ())
                             else (s', Inr ()))))"

subsection \<open>The texts a run writes\<close>



subsection \<open>Sample workspaces\<close>

text \<open>
  A registry that knows the desired versions: \<^verbatim>\<open>upgradePackageDefinitions\<close> returns the names
  whose desired version differs from the current one.
\<close>

definition upgradeTo :: "VersionSpec obj \<Rightarrow> VersionSpec obj \<Rightarrow> VersionSpec obj" where
  "upgradeTo desired current =
     concat (map (\<lambda>(name, v). case map_of desired name of
                                  None \<Rightarrow> []
                                | Some w \<Rightarrow> if w = v then [] else [(name, w)]) current)"

definition sample_env :: "VersionSpec obj \<Rightarrow> node env" where
  "sample_env desired =
     \<lparr> yaml = tree_yaml, jsonc = tree_jsonc, jsonParse = Some,
       findUp = (\<lambda>name. if name = ''pnpm-workspace.yaml'' then Some ''/repo/pnpm-workspace.yaml''
                         else if name = ''package.json'' then Some ''/repo/package.json''
                         else None),
       upgradePackageDefinitions = upgradeTo desired \<rparr>"

definition sample_fs :: "node \<Rightarrow> node \<Rightarrow> node fs" where
  "sample_fs workspaceFile packageJson =
     \<lparr> files = fmap_of_list [(''/repo/pnpm-workspace.yaml'', workspaceFile),
                              (''/repo/package.json'', packageJson)],
       trace = [] \<rparr>"

definition consumer :: "string \<Rightarrow> string \<Rightarrow> PackageFile" where
  "consumer dep catalogRef =
     \<lparr> packageManager = None, depObjects = [(''dependencies'', [(dep, catalogRef)])] \<rparr>"

definition doc_flat :: node where
  "doc_flat =
     Obj [(''packages'', Arr [Str ''packages/*'']),
          (''catalog'', Obj [(''lodash'', Str ''4.17.20'')])]"

definition doc_root :: node where
  "doc_root = Obj [(''name'', Str ''root''), (''version'', Str ''1.0.0'')]"

definition doc_bun :: node where
  "doc_bun =
     Obj [(''name'', Str ''root''),
          (''workspaces'', Arr [Str ''packages/*'']),
          (''catalog'', Obj [(''lodash'', Str ''4.17.20'')])]"

definition doc_named :: node where
  "doc_named =
     Obj [(''packages'', Arr [Str ''packages/*'']),
          (''catalogs'',
             Obj [(''mobile'', Obj [(''axios'', Str ''1.0.0'')]),
                  (''web'', Obj [(''axios'', Str ''1.0.0'')])])]"

section \<open>Properties of section resolution\<close>

subsection \<open>Lookup lemmas for the merge\<close>

lemma filterObject_None_iff:
  "filterObject obj p = None \<longleftrightarrow> (\<exists>k v. fmlookup obj k = Some v \<and> p k v = None)"
proof -
  have "fBex (fmdom obj) (\<lambda>k. case fmlookup obj k of Some v \<Rightarrow> p k v = None | None \<Rightarrow> False)
        \<longleftrightarrow> (\<exists>k v. fmlookup obj k = Some v \<and> p k v = None)"
  proof
    assume "fBex (fmdom obj) (\<lambda>k. case fmlookup obj k of Some v \<Rightarrow> p k v = None | None \<Rightarrow> False)"
    then obtain k where "k |\<in>| fmdom obj"
      and "case fmlookup obj k of Some v \<Rightarrow> p k v = None | None \<Rightarrow> False"
      by auto
    then show "\<exists>k v. fmlookup obj k = Some v \<and> p k v = None"
      by (cases "fmlookup obj k") auto
  next
    assume "\<exists>k v. fmlookup obj k = Some v \<and> p k v = None"
    then obtain k v where kv: "fmlookup obj k = Some v" "p k v = None"
      by blast
    then have "k |\<in>| fmdom obj"
      by (simp add: fmlookup_dom_iff)
    then show "fBex (fmdom obj) (\<lambda>k. case fmlookup obj k of Some v \<Rightarrow> p k v = None | None \<Rightarrow> False)"
      using kv by (auto intro!: bexI [of _ k])
  qed
  then show ?thesis
    by (simp add: filterObject_def)
qed

lemma fmlookup_filterObject:
  assumes "filterObject obj p = Some r"
  shows "fmlookup r k =
     (case fmlookup obj k of
        Some v \<Rightarrow> if p k v = Some True then Some v else None
      | None \<Rightarrow> None)"
  using assms by (auto simp: filterObject_def split: option.splits if_splits)

lemma filterObject_Some_defined:
  assumes "filterObject obj p = Some r" and "fmlookup obj k = Some v"
  shows "p k v \<noteq> None"
  using assms filterObject_None_iff [of obj p] by auto

lemma isGreaterThanSafe_Inl: "isGreaterThanSafe sv a b = Inl e \<Longrightarrow> e = TypeError"
  by (auto simp: isGreaterThanSafe_def split: if_splits option.splits)

lemma notGreater_None_iff:
  "notGreater sv accum dep spec = None
     \<longleftrightarrow> isGreaterThanSafe sv spec (index_get accum dep) = Inl TypeError"
  using isGreaterThanSafe_Inl [of sv spec "index_get accum dep"]
  by (auto simp: notGreater_def split: sum.splits)

lemma notGreater_Some_True_iff:
  "notGreater sv accum dep spec = Some True
     \<longleftrightarrow> isGreaterThanSafe sv spec (index_get accum dep) = Inr False"
  by (auto simp: notGreater_def split: sum.splits)

lemma mergeSection_Inl_iff:
  assumes "depSection \<noteq> ''packageManager''"
  shows "mergeSection sv pkgData accum depSection = Inl e \<longleftrightarrow>
     e = TypeError \<and>
     (\<exists>d spec. fmlookup (sectionObject pkgData depSection) d = Some spec \<and>
        isGreaterThanSafe sv spec (index_get accum d) = Inl TypeError)"
proof (cases "filterObject (sectionObject pkgData depSection) (notGreater sv accum)")
  case None
  then show ?thesis
    using assms filterObject_None_iff [of "sectionObject pkgData depSection" "notGreater sv accum"]
    by (auto simp: mergeSection_def notGreater_None_iff)
next
  case (Some r)
  then show ?thesis
    using assms filterObject_None_iff [of "sectionObject pkgData depSection" "notGreater sv accum"]
    by (auto simp: mergeSection_def notGreater_None_iff)
qed

lemma mergeSection_Inr_iff:
  assumes "depSection \<noteq> ''packageManager''"
  shows "(\<exists>accum'. mergeSection sv pkgData accum depSection = Inr accum') \<longleftrightarrow>
     (\<forall>d spec. fmlookup (sectionObject pkgData depSection) d = Some spec \<longrightarrow>
        isGreaterThanSafe sv spec (index_get accum d) \<noteq> Inl TypeError)"
proof (cases "mergeSection sv pkgData accum depSection")
  case (Inl e)
  then show ?thesis
    using mergeSection_Inl_iff [OF assms, of sv pkgData accum e] by auto
next
  case (Inr r)
  then show ?thesis
    using mergeSection_Inl_iff [OF assms, of sv pkgData accum TypeError] by auto
qed

lemma fmlookup_mergeSection:
  assumes "depSection \<noteq> ''packageManager''"
    and "mergeSection sv pkgData accum depSection = Inr accum'"
  shows "fmlookup accum' dep =
     (case fmlookup (sectionObject pkgData depSection) dep of
        None \<Rightarrow> fmlookup accum dep
      | Some spec \<Rightarrow>
          if isGreaterThanSafe sv spec (index_get accum dep) = Inr True then fmlookup accum dep
          else Some (Some spec))"
proof -
  obtain r where r: "filterObject (sectionObject pkgData depSection) (notGreater sv accum) = Some r"
    and a: "accum' = accum ++\<^sub>f fmmap Some r"
    using assms by (auto simp: mergeSection_def split: option.splits)
  show ?thesis
  proof (cases "fmlookup (sectionObject pkgData depSection) dep")
    case None
    then show ?thesis
      unfolding a by (simp add: fmlookup_filterObject [OF r] fmlookup_dom_iff)
  next
    case (Some spec)
    have "isGreaterThanSafe sv spec (index_get accum dep) \<noteq> Inl TypeError"
      using filterObject_Some_defined [OF r Some] by (simp add: notGreater_None_iff)
    then have "isGreaterThanSafe sv spec (index_get accum dep) = Inr True
               \<or> isGreaterThanSafe sv spec (index_get accum dep) = Inr False"
      using isGreaterThanSafe_Inl [of sv spec "index_get accum dep"]
      by (cases "isGreaterThanSafe sv spec (index_get accum dep)") auto
    then show ?thesis
      unfolding a
      by (auto simp: fmlookup_filterObject [OF r] Some notGreater_Some_True_iff fmlookup_dom_iff)
  qed
qed

lemma fmlookup_mergeSection_pm:
  assumes "mergeSection sv pkgData accum ''packageManager'' = Inr accum'"
  shows "fmlookup accum' dep =
     (case fmlookup (parsePackageManager pkgData) dep of
        None \<Rightarrow> fmlookup accum dep
      | Some v \<Rightarrow> Some v)"
  using assms by (auto simp: mergeSection_def fmlookup_dom_iff split: option.splits)

lemma getCurrentDependencies_lookup:
  assumes "getCurrentDependencies sv pkgData options = Inr m"
  shows "\<exists>all. allDependencies sv pkgData (depSections options) = Inr all \<and>
     fmlookup m name =
       (case index_get all name of
          None \<Rightarrow> None
        | Some v \<Rightarrow>
            if \<not> workspacePackageMap options name \<and> \<not> prefix ''catalog:'' v
               \<and> filterAndReject options name v = Some True
            then Some v else None)"
proof -
  obtain all own where all: "allDependencies sv pkgData (depSections options) = Inr all"
    and own: "filterObject all (notWorkspaceNorCatalog options) = Some own"
    and m: "filterObject (fmmap specOf own) (filterAndReject options) = Some m"
    using assms by (auto simp: getCurrentDependencies_def split: sum.splits option.splits)
  have "fmlookup m name =
       (case index_get all name of
          None \<Rightarrow> None
        | Some v \<Rightarrow>
            if \<not> workspacePackageMap options name \<and> \<not> prefix ''catalog:'' v
               \<and> filterAndReject options name v = Some True
            then Some v else None)"
  proof (cases "fmlookup all name")
    case None
    then show ?thesis
      by (simp add: fmlookup_filterObject [OF m] fmlookup_filterObject [OF own] index_get_def)
  next
    case (Some x)
    have "notWorkspaceNorCatalog options name x \<noteq> None"
      by (rule filterObject_Some_defined [OF own Some])
    then show ?thesis
      using Some
      by (cases x)
        (auto simp: fmlookup_filterObject [OF m] fmlookup_filterObject [OF own] index_get_def
          notWorkspaceNorCatalog_def specOf_def split: if_splits)
  qed
  then show ?thesis using all by blast
qed

subsection \<open>The lowest version wins\<close>

lemma lowest_step:
  assumes asym: "\<And>x y. gt sv x y \<Longrightarrow> \<not> gt sv y x"
    and va: "validRange sv a" and vb: "validRange sv b"
    and ma: "minVersion sv a = Some x" and mb: "minVersion sv b = Some y"
    and lt: "gt sv y x"
    and pm: "fmlookup (parsePackageManager pkgData) dep = None"
    and s1: "s1 \<noteq> ''packageManager''" "fmlookup (sectionObject pkgData s1) dep = Some a"
    and s: "s = s1 \<or> s = ''packageManager'' \<or>
            fmlookup (sectionObject pkgData s) dep = Some b \<or>
            fmlookup (sectionObject pkgData s) dep = None"
    and inv: "fmlookup accum dep \<in> {None, Some (Some a), Some (Some b)}"
    and step: "mergeSection sv pkgData accum s = Inr accum'"
  shows "fmlookup accum' dep \<in> {None, Some (Some a), Some (Some b)}"
    and "s = s1 \<Longrightarrow> fmlookup accum' dep = Some (Some a)"
    and "fmlookup accum dep = Some (Some a) \<Longrightarrow> fmlookup accum' dep = Some (Some a)"
proof -
  have nxx: "\<not> gt sv x x"
    using asym by blast
  have nxy: "\<not> gt sv x y"
    using asym lt by blast
  show "s = s1 \<Longrightarrow> fmlookup accum' dep = Some (Some a)"
  proof -
    assume e: "s = s1"
    show ?thesis
      using s1 inv nxx nxy va vb ma mb
      by (auto simp: fmlookup_mergeSection [OF s1(1) step [unfolded e]]
          isGreaterThanSafe_def index_get_def)
  qed
  show "fmlookup accum dep = Some (Some a) \<Longrightarrow> fmlookup accum' dep = Some (Some a)"
  proof (cases "s = ''packageManager''")
    case True
    assume "fmlookup accum dep = Some (Some a)"
    then show ?thesis
      using pm by (simp add: fmlookup_mergeSection_pm [OF step [unfolded True]])
  next
    case False
    assume "fmlookup accum dep = Some (Some a)"
    then show ?thesis
      using False s s1 nxx va vb ma mb lt
      by (auto simp: fmlookup_mergeSection [OF False step] isGreaterThanSafe_def index_get_def)
  qed
  show "fmlookup accum' dep \<in> {None, Some (Some a), Some (Some b)}"
  proof (cases "s = ''packageManager''")
    case True
    then show ?thesis
      using pm inv by (simp add: fmlookup_mergeSection_pm [OF step [unfolded True]])
  next
    case False
    then show ?thesis
      using s s1 inv
      by (auto simp: fmlookup_mergeSection [OF False step] split: option.splits)
  qed
qed

lemma lowest_mergeSections:
  assumes asym: "\<And>x y. gt sv x y \<Longrightarrow> \<not> gt sv y x"
    and va: "validRange sv a" and vb: "validRange sv b"
    and ma: "minVersion sv a = Some x" and mb: "minVersion sv b = Some y"
    and lt: "gt sv y x"
    and pm: "fmlookup (parsePackageManager pkgData) dep = None"
    and s1: "s1 \<noteq> ''packageManager''" "fmlookup (sectionObject pkgData s1) dep = Some a"
  shows "(\<And>s. s \<in> set secs \<Longrightarrow> s = s1 \<or> s = ''packageManager'' \<or>
            fmlookup (sectionObject pkgData s) dep = Some b \<or>
            fmlookup (sectionObject pkgData s) dep = None) \<Longrightarrow>
         fmlookup accum dep \<in> {None, Some (Some a), Some (Some b)} \<Longrightarrow>
         s1 \<in> set secs \<or> fmlookup accum dep = Some (Some a) \<Longrightarrow>
         mergeSections sv pkgData accum secs = Inr all \<Longrightarrow>
         fmlookup all dep = Some (Some a)"
proof (induction secs arbitrary: accum)
  case Nil
  then show ?case by simp
next
  case (Cons s secs)
  obtain accum' where step: "mergeSection sv pkgData accum s = Inr accum'"
    and rest: "mergeSections sv pkgData accum' secs = Inr all"
    using Cons.prems(4) by (auto split: sum.splits)
  have s: "s = s1 \<or> s = ''packageManager'' \<or>
            fmlookup (sectionObject pkgData s) dep = Some b \<or>
            fmlookup (sectionObject pkgData s) dep = None"
    using Cons.prems(1) by simp
  note st = lowest_step [OF asym va vb ma mb lt pm s1 s Cons.prems(2) step]
  have "s1 \<in> set secs \<or> fmlookup accum' dep = Some (Some a)"
    using Cons.prems(3) st(2) st(3) by auto
  then show ?case
    using Cons.IH [of accum'] Cons.prems(1) st(1) rest
    by simp
qed

subsection \<open>Evaluation on sample manifests\<close>

lemma sample_semver_gt:
  "gt sample_semver = (\<lambda>(a1, a2, a3) (b1, b2, b3).
               b1 < a1 \<or> (b1 = a1 \<and> (b2 < a2 \<or> (b2 = a2 \<and> b3 < a3))))"
  by (simp add: sample_semver_def)

lemma sample_semver_asym: "gt sample_semver x y \<Longrightarrow> \<not> gt sample_semver y x"
  unfolding sample_semver_gt by (cases x; cases y) auto

lemmas sample_eval =
  currentVersion_def getCurrentDependencies_def allDependencies_def mergeSection_def
  filterObject_def notGreater_def isGreaterThanSafe_def index_get_def sectionObject_def
  options_of_def sample_semver_def notWorkspaceNorCatalog_def workspacePackageMap_def
  objectPrototypeNames_def specOf_def parsePackageManager_def

subsection \<open>Catalog references are excluded\<close>

lemma mergeSection_origin:
  assumes "mergeSection sv pkgData accum s = Inr accum'"
    and "fmlookup accum' name = Some (Some v)"
  shows "fmlookup accum name = Some (Some v)
         \<or> (s \<noteq> ''packageManager'' \<and> fmlookup (sectionObject pkgData s) name = Some v)
         \<or> (s = ''packageManager'' \<and> fmlookup (parsePackageManager pkgData) name = Some (Some v))"
proof (cases "s = ''packageManager''")
  case True
  then show ?thesis
    using assms(2) fmlookup_mergeSection_pm [OF assms(1) [unfolded True], of name]
    by (auto split: option.splits)
next
  case False
  then show ?thesis
    using assms(2) fmlookup_mergeSection [OF False assms(1), of name]
    by (auto split: option.splits if_splits)
qed

lemma mergeSections_origin:
  "mergeSections sv pkgData accum secs = Inr all \<Longrightarrow>
   fmlookup all name = Some (Some v) \<Longrightarrow>
   fmlookup accum name = Some (Some v)
   \<or> (\<exists>s \<in> set secs. fmlookup (sectionObject pkgData s) name = Some v)
   \<or> fmlookup (parsePackageManager pkgData) name = Some (Some v)"
proof (induction secs arbitrary: accum)
  case Nil
  then show ?case by simp
next
  case (Cons s secs)
  obtain accum' where step: "mergeSection sv pkgData accum s = Inr accum'"
    and rest: "mergeSections sv pkgData accum' secs = Inr all"
    using Cons.prems(1) by (auto split: sum.splits)
  from Cons.IH [OF rest Cons.prems(2)]
  have "fmlookup accum' name = Some (Some v)
        \<or> (\<exists>s \<in> set secs. fmlookup (sectionObject pkgData s) name = Some v)
        \<or> fmlookup (parsePackageManager pkgData) name = Some (Some v)" .
  then show ?case
    using mergeSection_origin [OF step, of name v] by auto
qed

text \<open>
  Claim C6, as the code has it. Whenever \<^verbatim>\<open>getCurrentDependencies\<close> returns a map, for
  every package file and every option set: a name whose merged version spec (the one the
  section merge ends with) starts with \<^verbatim>\<open>catalog:\<close>, with or without a catalog name, is not
  a key of that map; no key of the map is bound to such a spec; and a name to which every
  scanned section declaring it, and the \<^verbatim>\<open>packageManager\<close> field if it names it, give such
  a spec is not a key of the map.
\<close>

theorem catalog_exclusion:
  assumes "getCurrentDependencies sv pkgData options = Inr m"
  shows "(allDependencies sv pkgData (depSections options) = Inr all \<and>
            index_get all name = Some v \<and> prefix ''catalog:'' v \<longrightarrow> fmlookup m name = None)
         \<and> (\<forall>w. fmlookup m name = Some w \<longrightarrow> \<not> prefix ''catalog:'' w)
         \<and> ((\<forall>s \<in> set (depSections options). \<forall>w.
                fmlookup (sectionObject pkgData s) name = Some w \<longrightarrow> prefix ''catalog:'' w) \<and>
             (\<forall>w. fmlookup (parsePackageManager pkgData) name = Some (Some w)
                \<longrightarrow> prefix ''catalog:'' w)
             \<longrightarrow> fmlookup m name = None)"
proof -
  obtain all' where all': "allDependencies sv pkgData (depSections options) = Inr all'"
    and look: "fmlookup m name =
       (case index_get all' name of
          None \<Rightarrow> None
        | Some v \<Rightarrow>
            if \<not> workspacePackageMap options name \<and> \<not> prefix ''catalog:'' v
               \<and> filterAndReject options name v = Some True
            then Some v else None)"
    using getCurrentDependencies_lookup [OF assms, of name] by blast
  have 1: "allDependencies sv pkgData (depSections options) = Inr all \<and>
            index_get all name = Some v \<and> prefix ''catalog:'' v \<longrightarrow> fmlookup m name = None"
    using all' look by auto
  have 2: "\<forall>w. fmlookup m name = Some w \<longrightarrow> \<not> prefix ''catalog:'' w"
    using look by (auto split: option.splits if_splits)
  have 3: "fmlookup m name = None"
    if decl: "(\<forall>s \<in> set (depSections options). \<forall>w.
                fmlookup (sectionObject pkgData s) name = Some w \<longrightarrow> prefix ''catalog:'' w) \<and>
             (\<forall>w. fmlookup (parsePackageManager pkgData) name = Some (Some w)
                \<longrightarrow> prefix ''catalog:'' w)"
  proof (cases "index_get all' name")
    case None
    then show ?thesis using look by simp
  next
    case (Some w)
    then have "fmlookup all' name = Some (Some w)"
      by (auto simp: index_get_def split: option.splits)
    then have "prefix ''catalog:'' w"
      using mergeSections_origin [OF all' [unfolded allDependencies_def], of name w] decl
      by auto
    then show ?thesis using look Some by simp
  qed
  show ?thesis using 1 2 3 by blast
qed

theorem catalog_exclusion_witness:
  "currentVersion (getCurrentDependencies sample_semver manifest_catalog
      (options_of [''dependencies''] None)) ''lodash'' = Inr None
   \<and> currentVersion (getCurrentDependencies sample_semver manifest_catalog
      (options_of [''dependencies''] None)) ''axios'' = Inr None"
proof -
  let ?o = "options_of [''dependencies''] None"
  obtain m where m: "getCurrentDependencies sample_semver manifest_catalog ?o = Inr m"
    by (simp add: sample_eval manifest_catalog_def)
  obtain all where all: "allDependencies sample_semver manifest_catalog (depSections ?o) = Inr all"
    by (simp add: sample_eval manifest_catalog_def)
  have l: "index_get all ''lodash'' = Some ''catalog:''"
    and a: "index_get all ''axios'' = Some ''catalog:mobile''"
    using all by (auto simp: sample_eval manifest_catalog_def)
  have "fmlookup m ''lodash'' = None"
    using catalog_exclusion [OF m, of all "''lodash''" "''catalog:''"] all l by simp
  moreover have "fmlookup m ''axios'' = None"
    using catalog_exclusion [OF m, of all "''axios''" "''catalog:mobile''"] all a by simp
  ultimately show ?thesis
    using m by (simp add: currentVersion_def)
qed

text \<open>
  Counterexample to claim C6 as stated: \<^verbatim>\<open>x\<close> is declared \<^verbatim>\<open>catalog:\<close> in
  \<^verbatim>\<open>dependencies\<close> and \<^verbatim>\<open>^1.0.0\<close> in \<^verbatim>\<open>devDependencies\<close>. The later section replaces the
  catalog reference in the merge, and the returned map binds \<^verbatim>\<open>x\<close>.
\<close>

theorem catalog_declared_name_returned_counterexample:
  "fmlookup (sectionObject manifest_catalog_twice ''dependencies'') ''x'' = Some ''catalog:''
   \<and> currentVersion (getCurrentDependencies sample_semver manifest_catalog_twice
      (options_of [''dependencies'', ''devDependencies''] None)) ''x'' = Inr (Some ''^1.0.0'')"
  by (simp add: sample_eval manifest_catalog_twice_def)

subsection \<open>A spec seen again\<close>

text \<open>
  Claim C2, as the code has it. A name already in the accumulator is seen again in a
  dependency section. The merge step throws a \<^verbatim>\<open>TypeError\<close> when both specs are valid ranges
  and one of them has no minimum version; it returns exactly when no entry of the section
  meets such a comparison. When it returns, the later spec has replaced the earlier one
  unless the later spec is strictly greater (both specs are valid ranges and the later
  minimum version is greater). So a tie and an incomparable pair are resolved in favour of
  the later-seen value, not the first-seen one.
\<close>

theorem later_spec_overwrites_unless_greater:
  assumes "depSection \<noteq> ''packageManager''"
    and "fmlookup accum dep = Some (Some old)"
    and "fmlookup (sectionObject pkgData depSection) dep = Some new"
  shows "(validRange sv new \<and> validRange sv old \<and>
            (minVersion sv new = None \<or> minVersion sv old = None)
          \<longrightarrow> mergeSection sv pkgData accum depSection = Inl TypeError)
       \<and> ((\<exists>accum'. mergeSection sv pkgData accum depSection = Inr accum') \<longleftrightarrow>
            (\<forall>d spec. fmlookup (sectionObject pkgData depSection) d = Some spec \<longrightarrow>
               isGreaterThanSafe sv spec (index_get accum d) \<noteq> Inl TypeError))
       \<and> (\<forall>accum'. mergeSection sv pkgData accum depSection = Inr accum' \<longrightarrow>
            fmlookup accum' dep =
              Some (Some (if validRange sv new \<and> validRange sv old \<and>
                             (\<exists>x y. minVersion sv new = Some x \<and> minVersion sv old = Some y \<and>
                                    gt sv x y)
                          then old else new)))"
proof (intro conjI impI allI)
  assume a: "validRange sv new \<and> validRange sv old \<and>
            (minVersion sv new = None \<or> minVersion sv old = None)"
  have "isGreaterThanSafe sv new (index_get accum dep) = Inl TypeError"
    using a assms(2) by (auto simp: isGreaterThanSafe_def index_get_def split: option.splits)
  then show "mergeSection sv pkgData accum depSection = Inl TypeError"
    using mergeSection_Inl_iff [OF assms(1), of sv pkgData accum TypeError] assms(3) by blast
next
  show "(\<exists>accum'. mergeSection sv pkgData accum depSection = Inr accum') \<longleftrightarrow>
            (\<forall>d spec. fmlookup (sectionObject pkgData depSection) d = Some spec \<longrightarrow>
               isGreaterThanSafe sv spec (index_get accum d) \<noteq> Inl TypeError)"
    by (rule mergeSection_Inr_iff [OF assms(1)])
next
  fix accum'
  assume step: "mergeSection sv pkgData accum depSection = Inr accum'"
  have "isGreaterThanSafe sv new (index_get accum dep) \<noteq> Inl TypeError"
    using mergeSection_Inl_iff [OF assms(1), of sv pkgData accum TypeError] step assms(3)
    by auto
  then show "fmlookup accum' dep =
              Some (Some (if validRange sv new \<and> validRange sv old \<and>
                             (\<exists>x y. minVersion sv new = Some x \<and> minVersion sv old = Some y \<and>
                                    gt sv x y)
                          then old else new))"
    using assms(2,3)
    by (auto simp: fmlookup_mergeSection [OF assms(1) step] isGreaterThanSafe_def index_get_def
        split: option.splits if_splits)
qed

theorem later_spec_overwrites_unless_greater_witness:
  "(\<exists>accum'. mergeSection sample_semver manifest_mixed
       (fmupd ''a'' (Some ''^1.0.0'') fmempty) ''devDependencies'' = Inr accum'
     \<and> fmlookup accum' ''a'' = Some (Some ''github:user/repo''))
   \<and> mergeSection sample_semver manifest_unsatisfiable
       (fmupd ''a'' (Some ''^1.0.0'') fmempty) ''devDependencies'' = Inl TypeError"
proof -
  let ?acc = "fmupd ''a'' (Some ''^1.0.0'') fmempty :: raw_index"
  have n: "''devDependencies'' \<noteq> ''packageManager''"
    by simp
  have old: "fmlookup ?acc ''a'' = Some (Some ''^1.0.0'')"
    by simp
  have new1: "fmlookup (sectionObject manifest_mixed ''devDependencies'') ''a''
      = Some ''github:user/repo''"
    by (simp add: sectionObject_def manifest_mixed_def)
  have new2: "fmlookup (sectionObject manifest_unsatisfiable ''devDependencies'') ''a''
      = Some ''<0.0.0-0''"
    by (simp add: sectionObject_def manifest_unsatisfiable_def)
  note t1 = later_spec_overwrites_unless_greater [OF n old new1, of sample_semver]
  note t2 = later_spec_overwrites_unless_greater [OF n old new2, of sample_semver]
  have "\<forall>d spec. fmlookup (sectionObject manifest_mixed ''devDependencies'') d = Some spec \<longrightarrow>
          isGreaterThanSafe sample_semver spec (index_get ?acc d) \<noteq> Inl TypeError"
    by (auto simp: sectionObject_def manifest_mixed_def isGreaterThanSafe_def index_get_def
        sample_semver_def split: if_splits)
  then obtain accum' where r: "mergeSection sample_semver manifest_mixed ?acc ''devDependencies''
      = Inr accum'"
    using t1 by blast
  then have "fmlookup accum' ''a'' = Some (Some ''github:user/repo'')"
    using t1 by (simp add: sample_semver_def)
  then have 1: "\<exists>accum'. mergeSection sample_semver manifest_mixed ?acc ''devDependencies''
      = Inr accum' \<and> fmlookup accum' ''a'' = Some (Some ''github:user/repo'')"
    using r by blast
  have 2: "mergeSection sample_semver manifest_unsatisfiable ?acc ''devDependencies''
      = Inl TypeError"
    using t2 by (simp add: sample_semver_def)
  show ?thesis using 1 2 by blast
qed

text \<open>
  Counterexample to claim C2 as stated: with \<^verbatim>\<open>dependencies\<close> scanned before
  \<^verbatim>\<open>devDependencies\<close>, the first-seen \<^verbatim>\<open>^1.0.0\<close> is replaced by a later git reference
  (incomparable) and by a later \<^verbatim>\<open>~1.0.0\<close> (a tie).
\<close>

theorem first_seen_not_kept_counterexample:
  "currentVersion (getCurrentDependencies sample_semver manifest_mixed
      (options_of [''dependencies'', ''devDependencies''] None)) ''a''
     = Inr (Some ''github:user/repo'')
   \<and> \<not> validRange sample_semver ''github:user/repo''
   \<and> currentVersion (getCurrentDependencies sample_semver manifest_mixed
      (options_of [''dependencies'', ''devDependencies''] None)) ''b''
     = Inr (Some ''~1.0.0'')
   \<and> minVersion sample_semver ''~1.0.0'' = minVersion sample_semver ''^1.0.0''"
  by (simp add: sample_eval manifest_mixed_def)

subsection \<open>Two sections declaring one name\<close>

text \<open>
  Claim C1, as the code has it. Let a name be declared in two dependency sections (neither
  is the \<^verbatim>\<open>packageManager\<close> pseudo-section) with valid ranges \<open>a\<close> and \<open>b\<close> that both have a
  minimum version, the one of \<open>a\<close> being the lower, and in no other scanned section nor in
  the \<^verbatim>\<open>packageManager\<close> field. Then, in whatever order (and however often) the sections are
  listed, a map that \<^verbatim>\<open>getCurrentDependencies\<close> returns binds the name to \<open>a\<close>, provided the
  name passes the filter stage: \<^verbatim>\<open>workspacePackageMap[name]\<close> is falsy (the name is not a
  workspace package and not a property name of \<^verbatim>\<open>Object.prototype\<close>), \<open>a\<close> is not a catalog
  reference, and the filter predicate accepts the entry.
\<close>

theorem lowest_wins:
  assumes asym: "\<And>x y. gt sv x y \<Longrightarrow> \<not> gt sv y x"
    and va: "validRange sv a" and vb: "validRange sv b"
    and ma: "minVersion sv a = Some x" and mb: "minVersion sv b = Some y"
    and lt: "gt sv y x"
    and in1: "s1 \<in> set (depSections options)" and in2: "s2 \<in> set (depSections options)"
    and n1: "s1 \<noteq> ''packageManager''" and n2: "s2 \<noteq> ''packageManager''"
    and d1: "fmlookup (sectionObject pkgData s1) dep = Some a"
    and d2: "fmlookup (sectionObject pkgData s2) dep = Some b"
    and others: "\<And>s. s \<in> set (depSections options) \<Longrightarrow> s \<noteq> s1 \<Longrightarrow> s \<noteq> s2 \<Longrightarrow>
                  s \<noteq> ''packageManager'' \<Longrightarrow> fmlookup (sectionObject pkgData s) dep = None"
    and pm: "fmlookup (parsePackageManager pkgData) dep = None"
    and res: "getCurrentDependencies sv pkgData options = Inr m"
    and ws: "\<not> workspacePackageMap options dep"
    and cat: "\<not> prefix ''catalog:'' a"
    and flt: "filterAndReject options dep a = Some True"
  shows "fmlookup m dep = Some a"
proof -
  have cls: "\<And>s. s \<in> set (depSections options) \<Longrightarrow> s = s1 \<or> s = ''packageManager'' \<or>
            fmlookup (sectionObject pkgData s) dep = Some b \<or>
            fmlookup (sectionObject pkgData s) dep = None"
    using d2 others by metis
  obtain all where all: "allDependencies sv pkgData (depSections options) = Inr all"
    and look: "fmlookup m dep =
       (case index_get all dep of
          None \<Rightarrow> None
        | Some v \<Rightarrow>
            if \<not> workspacePackageMap options dep \<and> \<not> prefix ''catalog:'' v
               \<and> filterAndReject options dep v = Some True
            then Some v else None)"
    using getCurrentDependencies_lookup [OF res, of dep] by blast
  have "fmlookup all dep = Some (Some a)"
    using lowest_mergeSections [OF asym va vb ma mb lt pm n1 d1 cls,
        of "depSections options" fmempty all] in1 all
    by (simp add: allDependencies_def)
  then show ?thesis
    using look ws cat flt by (simp add: index_get_def)
qed

theorem lowest_wins_witness:
  "currentVersion (getCurrentDependencies sample_semver manifest_react
      (options_of [''dependencies'', ''devDependencies''] None)) ''react'' = Inr (Some ''^1.0.0'')
   \<and> currentVersion (getCurrentDependencies sample_semver manifest_react
      (options_of [''devDependencies'', ''dependencies''] None)) ''react'' = Inr (Some ''^1.0.0'')"
proof -
  have ord: "currentVersion (getCurrentDependencies sample_semver manifest_react (options_of secs None))
       ''react'' = Inr (Some ''^1.0.0'')"
    if secs: "set secs = {''dependencies'', ''devDependencies''}"
      and ret: "\<exists>m. getCurrentDependencies sample_semver manifest_react (options_of secs None) = Inr m"
    for secs
  proof -
    let ?o = "options_of secs None"
    obtain m where m: "getCurrentDependencies sample_semver manifest_react ?o = Inr m"
      using ret by blast
    have va: "validRange sample_semver ''^1.0.0''" and vb: "validRange sample_semver ''^2.0.0''"
      and ma: "minVersion sample_semver ''^1.0.0'' = Some (1, 0, 0)"
      and mb: "minVersion sample_semver ''^2.0.0'' = Some (2, 0, 0)"
      and lt: "gt sample_semver (2, 0, 0) (1, 0, 0)"
      by (simp_all add: sample_semver_def)
    have in1: "''devDependencies'' \<in> set (depSections ?o)"
      and in2: "''dependencies'' \<in> set (depSections ?o)"
      by (simp_all add: options_of_def secs)
    have n1: "''devDependencies'' \<noteq> ''packageManager''"
      and n2: "''dependencies'' \<noteq> ''packageManager''"
      by simp_all
    have d1: "fmlookup (sectionObject manifest_react ''devDependencies'') ''react'' = Some ''^1.0.0''"
      and d2: "fmlookup (sectionObject manifest_react ''dependencies'') ''react'' = Some ''^2.0.0''"
      by (simp_all add: sectionObject_def manifest_react_def)
    have others: "\<And>s. s \<in> set (depSections ?o) \<Longrightarrow> s \<noteq> ''devDependencies'' \<Longrightarrow>
        s \<noteq> ''dependencies'' \<Longrightarrow> s \<noteq> ''packageManager'' \<Longrightarrow>
        fmlookup (sectionObject manifest_react s) ''react'' = None"
      by (simp add: options_of_def secs)
    have pm: "fmlookup (parsePackageManager manifest_react) ''react'' = None"
      by (simp add: parsePackageManager_def manifest_react_def)
    have ws: "\<not> workspacePackageMap ?o ''react''"
      by (simp add: workspacePackageMap_def options_of_def objectPrototypeNames_def)
    have cat: "\<not> prefix ''catalog:'' ''^1.0.0''"
      by simp
    have fr: "filterAndReject ?o ''react'' ''^1.0.0'' = Some True"
      by (simp add: options_of_def)
    have "fmlookup m ''react'' = Some ''^1.0.0''"
      using lowest_wins [OF sample_semver_asym va vb ma mb lt in1 in2 n1 n2 d1 d2 others pm m
          ws cat fr]
      by simp
    then show ?thesis
      using m by (simp add: currentVersion_def)
  qed
  have r1: "\<exists>m. getCurrentDependencies sample_semver manifest_react
      (options_of [''dependencies'', ''devDependencies''] None) = Inr m"
    and r2: "\<exists>m. getCurrentDependencies sample_semver manifest_react
      (options_of [''devDependencies'', ''dependencies''] None) = Inr m"
    by (simp_all add: sample_eval manifest_react_def)
  show ?thesis
    using ord [of "[''dependencies'', ''devDependencies'']", OF _ r1]
      ord [of "[''devDependencies'', ''dependencies'']", OF _ r2]
    by (simp add: insert_commute)
qed

text \<open>
  Counterexample to claim C1 as stated: the \<^verbatim>\<open>packageManager\<close> pseudo-section is merged
  without the comparison, so \<^verbatim>\<open>npm@9.0.0\<close> scanned after \<^verbatim>\<open>devDependencies\<close> with
  \<^verbatim>\<open>npm: 8.0.0\<close> leaves the higher version; and a name listed in
  \<^verbatim>\<open>workspacePackages\<close> is not bound at all.
\<close>

theorem lowest_wins_counterexample:
  "currentVersion (getCurrentDependencies sample_semver manifest_pm
      (options_of [''devDependencies'', ''packageManager''] None)) ''npm''
     = Inr (Some ''9.0.0'')
   \<and> validRange sample_semver ''8.0.0'' \<and> validRange sample_semver ''9.0.0''
   \<and> minVersion sample_semver ''9.0.0'' = Some (9, 0, 0)
   \<and> minVersion sample_semver ''8.0.0'' = Some (8, 0, 0)
   \<and> gt sample_semver (9, 0, 0) (8, 0, 0)
   \<and> currentVersion (getCurrentDependencies sample_semver manifest_react
      (options_of [''dependencies'', ''devDependencies''] (Some [''react'']))) ''react''
     = Inr None"
  by (simp add: sample_eval manifest_pm_def manifest_react_def)

section \<open>Properties of the catalog patcher\<close>

subsection \<open>Reading and writing a path\<close>

lemma getIn_setIn_same: "getIn d p \<noteq> None \<Longrightarrow> getIn (setIn d p v) p = Some v"
proof (induction d p arbitrary: v rule: getIn.induct)
  case (1 n)
  then show ?case by simp
next
  case (2 kvs k ks)
  then show ?case by (auto simp: update_conv' split: option.splits)
qed simp_all

lemma getIn_setIn_diverge:
  "diverge p q \<Longrightarrow> getIn d p \<noteq> None \<Longrightarrow> getIn (setIn d p v) q = getIn d q"
proof (induction p q arbitrary: d rule: diverge.induct)
  case (1 a p b q)
  then show ?case
    by (cases d) (auto simp: update_conv' split: option.splits if_splits)
qed simp_all

lemma update_same: "map_of kvs k = Some c \<Longrightarrow> AList.update k c kvs = kvs"
  by (induction kvs) (auto split: if_splits)

lemma setIn_noop: "getIn d p = Some v \<Longrightarrow> setIn d p v = d"
proof (induction d p arbitrary: v rule: getIn.induct)
  case (2 kvs k ks)
  then show ?case by (auto simp: update_same split: option.splits)
qed simp_all

subsection \<open>Evaluation on sample documents\<close>

lemmas patch_eval =
  upgradeJsonCatalogData_def jsonStep_def keyPathOf_def hasWorkspacesCatalogs_def
  findNodeAtLocation_def tree_jsonc_def index_of_def Let_def
  upgradeYamlCatalogData_def yamlStep_def setIfPresent_def truthy_def objectPrototypeNames_def
  tree_yaml_def
  upgradeCatalogData_def

subsection \<open>Sequences of assignments\<close>

lemma applyOps_Nil [simp]: "applyOps d [] = d"
  by (simp add: applyOps_def)

lemma applyOps_Cons [simp]: "applyOps d ((p, v) # ops) = applyOps (setIfPresent d p v) ops"
  by (simp add: applyOps_def)

lemma applyOps_append: "applyOps d (xs @ ys) = applyOps (applyOps d xs) ys"
  by (simp add: applyOps_def)

lemma getIn_setIfPresent_same:
  "getIn (setIfPresent d p v) p = (if getIn d p = None then None else Some (Str v))"
  by (simp add: setIfPresent_def getIn_setIn_same)

lemma getIn_setIfPresent_diverge:
  "diverge q p \<Longrightarrow> getIn (setIfPresent d q w) p = getIn d p"
  by (simp add: setIfPresent_def getIn_setIn_diverge)

lemma setIfPresent_noop:
  "getIn d p = None \<or> getIn d p = Some (Str v) \<Longrightarrow> setIfPresent d p v = d"
  by (auto simp: setIfPresent_def setIn_noop)

lemma applyOps_frame:
  "(\<And>q w. (q, w) \<in> set ops \<Longrightarrow> diverge q p) \<Longrightarrow> getIn (applyOps d ops) p = getIn d p"
proof (induction ops arbitrary: d)
  case Nil
  then show ?case by simp
next
  case (Cons e ops)
  obtain q w where e: "e = (q, w)" by (cases e)
  have "diverge q p" using Cons.prems [of q w] e by simp
  then have "getIn (setIfPresent d q w) p = getIn d p"
    by (rule getIn_setIfPresent_diverge)
  moreover have "getIn (applyOps (setIfPresent d q w) ops) p = getIn (setIfPresent d q w) p"
  proof (rule Cons.IH)
    fix q' w' assume "(q', w') \<in> set ops"
    then show "diverge q' p" using Cons.prems [of q' w'] by simp
  qed
  ultimately show ?case using e by simp
qed

lemma applyOps_value:
  assumes "(p, v) \<in> set ops"
    and "\<And>q w. (q, w) \<in> set ops \<Longrightarrow> (q, w) = (p, v) \<or> diverge q p"
  shows "getIn (applyOps d ops) p = (if getIn d p = None then None else Some (Str v))"
  using assms
proof (induction ops arbitrary: d)
  case Nil
  then show ?case by simp
next
  case (Cons e ops)
  obtain q w where e: "e = (q, w)" by (cases e)
  have sep: "(q', w') = (p, v) \<or> diverge q' p" if "(q', w') \<in> set ops" for q' w'
    using Cons.prems(2) [of q' w'] that by simp
  have hd: "(q, w) = (p, v) \<or> diverge q p"
    using Cons.prems(2) [of q w] e by simp
  let ?d = "setIfPresent d q w"
  have step: "getIn ?d p = (if (q, w) = (p, v) then (if getIn d p = None then None else Some (Str v))
                            else getIn d p)"
    using hd by (auto simp: getIn_setIfPresent_same getIn_setIfPresent_diverge)
  show ?case
  proof (cases "(p, v) \<in> set ops")
    case True
    then have "getIn (applyOps ?d ops) p = (if getIn ?d p = None then None else Some (Str v))"
      using sep by (rule Cons.IH)
    then show ?thesis using e step by auto
  next
    case False
    then have pv: "(q, w) = (p, v)" using Cons.prems(1) e by simp
    have "diverge q' p" if "(q', w') \<in> set ops" for q' w'
      using sep [OF that] that False by auto
    then have "getIn (applyOps ?d ops) p = getIn ?d p"
      by (rule applyOps_frame)
    then show ?thesis using e step pv by simp
  qed
qed

lemma foldl_fixed: "(\<And>x. x \<in> set xs \<Longrightarrow> f a x = a) \<Longrightarrow> foldl f a xs = a"
  by (induction xs) simp_all

lemma separated_iff:
  "separated ops \<longleftrightarrow>
     (\<forall>p v q w. (p, v) \<in> set ops \<longrightarrow> (q, w) \<in> set ops \<longrightarrow> (q, w) = (p, v) \<or> diverge q p)"
  by (fastforce simp: separated_def list_all_iff)

lemma applyOps_idem:
  assumes "separated ops"
  shows "applyOps (applyOps d ops) ops = applyOps d ops"
proof -
  let ?d = "applyOps d ops"
  have "(\<lambda>d (p, v). setIfPresent d p v) ?d e = ?d" if "e \<in> set ops" for e
  proof -
    obtain p v where e: "e = (p, v)" by (cases e)
    have "\<And>q w. (q, w) \<in> set ops \<Longrightarrow> (q, w) = (p, v) \<or> diverge q p"
      using assms that e unfolding separated_iff by blast
    then have "getIn ?d p = (if getIn d p = None then None else Some (Str v))"
      using that e by (intro applyOps_value) simp_all
    then have "setIfPresent ?d p v = ?d"
      by (intro setIfPresent_noop) auto
    then show ?thesis using e by simp
  qed
  then have "foldl (\<lambda>d (p, v). setIfPresent d p v) ?d ops = ?d"
    by (rule foldl_fixed)
  then show ?thesis by (simp add: applyOps_def)
qed

subsection \<open>The YAML path as a sequence of assignments\<close>

lemma foldl_yamlStep: "foldl (yamlStep n) d ops = applyOps d (yamlOps n ops)"
proof (induction ops arbitrary: d)
  case Nil
  then show ?case by (simp add: yamlOps_def)
next
  case (Cons e ops)
  obtain dep v where e: "e = (dep, v)" by (cases e)
  have "yamlOps n (e # ops) =
          (if n = ''default''
           then [([''catalog'', dep], v), ([''catalogs'', ''default'', dep], v)]
           else [([''catalogs'', n, dep], v)]) @ yamlOps n ops"
    by (simp add: yamlOps_def e)
  then show ?case
    using Cons.IH by (simp add: e yamlStep_def applyOps_append)
qed

lemma yamlOps_mem:
  "(p, v) \<in> set (yamlOps n ops) \<longleftrightarrow>
     (\<exists>dep. (dep, v) \<in> set ops \<and>
        (if n = ''default'' then p = [''catalog'', dep] \<or> p = [''catalogs'', ''default'', dep]
         else p = [''catalogs'', n, dep]))"
  by (auto simp: yamlOps_def split: if_splits)

lemma distinct_fst_unique:
  "distinct (map fst ops) \<Longrightarrow> (k, v) \<in> set ops \<Longrightarrow> (k, w) \<in> set ops \<Longrightarrow> v = w"
  by (meson eq_key_imp_eq_value)

lemma separated_yamlOps:
  assumes "distinct (map fst ops)"
  shows "separated (yamlOps n ops)"
  unfolding separated_iff
proof (intro allI impI)
  fix p v q w
  assume "(p, v) \<in> set (yamlOps n ops)" "(q, w) \<in> set (yamlOps n ops)"
  then obtain d1 d2 where
    1: "(d1, v) \<in> set ops" "if n = ''default'' then p = [''catalog'', d1] \<or> p = [''catalogs'', ''default'', d1]
         else p = [''catalogs'', n, d1]"
    and 2: "(d2, w) \<in> set ops" "if n = ''default'' then q = [''catalog'', d2] \<or> q = [''catalogs'', ''default'', d2]
         else q = [''catalogs'', n, d2]"
    unfolding yamlOps_mem by blast
  have "d1 = d2 \<Longrightarrow> v = w"
    using distinct_fst_unique [OF assms] 1(1) 2(1) by blast
  then show "(q, w) = (p, v) \<or> diverge q p"
    using 1(2) 2(2) by (cases "d1 = d2") (auto split: if_splits)
qed

lemma distinct_fst_filter: "distinct (map fst ops) \<Longrightarrow> distinct (map fst (filter P ops))"
  by (induction ops) auto

lemma upgradeYamlCatalogData_idem:
  assumes "yaml_roundtrip y" and "distinct (map fst upgraded)"
    and "upgradeYamlCatalogData y t n current upgraded = Inr t1"
  shows "upgradeYamlCatalogData y t1 n current upgraded = Inr t1"
proof -
  let ?ops = "yamlOps n (filter (\<lambda>(dep, _). truthy current dep) upgraded)"
  obtain d where d: "parseDocument y t = Some d"
    using assms(3) by (auto simp: upgradeYamlCatalogData_def split: option.splits)
  have t1: "t1 = toString y (applyOps d ?ops)"
    using assms(3) d by (simp add: upgradeYamlCatalogData_def foldl_yamlStep)
  have p1: "parseDocument y t1 = Some (applyOps d ?ops)"
    using assms(1) t1 by (simp add: yaml_roundtrip_def)
  have "separated ?ops"
    by (intro separated_yamlOps distinct_fst_filter assms(2))
  then have "applyOps (applyOps d ?ops) ?ops = applyOps d ?ops"
    by (rule applyOps_idem)
  then show ?thesis
    using p1 t1 by (simp add: upgradeYamlCatalogData_def foldl_yamlStep)
qed

subsection \<open>The JSON path: edits of the text and assignments in the tree\<close>

lemma jsonStep_None: "jsonStep j None hasWs n current content e = content"
  by (cases e) (simp add: jsonStep_def findNodeAtLocation_def Let_def)

lemma jsonStep_target:
  "jsonStep j (Some r0) hasWs n current content e =
     (case jsonTarget r0 hasWs n current e of
        None \<Rightarrow> content
      | Some p \<Rightarrow> modifyApply j content p (snd e))"
  by (cases e) (auto simp: jsonStep_def jsonTarget_def findNodeAtLocation_def Let_def)

lemma jsonTarget_Some:
  assumes "jsonTarget r0 hasWs n current e = Some p"
  shows "getIn r0 p \<noteq> None" and "isTarget n p"
    and "p = keyPathOf n (fst e) \<or> p = ''workspaces'' # keyPathOf n (fst e)"
  using assms
  by (cases e; auto simp: jsonTarget_def isTarget_def split: if_splits)+

lemma isTarget_separate:
  "isTarget n p \<Longrightarrow> isTarget n q \<Longrightarrow> p = q \<or> diverge p q"
  by (auto simp: isTarget_def keyPathOf_def split: if_splits)

lemma sameTargets_refl: "sameTargets n r r"
  by (simp add: sameTargets_def)

lemma sameTargets_setIn:
  assumes "sameTargets n r r0" and "isTarget n p" and "getIn r p \<noteq> None"
  shows "sameTargets n (setIn r p v) r0"
  unfolding sameTargets_def
proof (intro allI impI)
  fix q assume q: "isTarget n q"
  show "(getIn (setIn r p v) q = None) = (getIn r0 q = None)"
  proof (cases "p = q")
    case True
    then show ?thesis
      using assms q by (auto simp: getIn_setIn_same sameTargets_def)
  next
    case False
    then have "diverge p q" using isTarget_separate [OF assms(2) q] by simp
    then show ?thesis
      using assms q by (simp add: getIn_setIn_diverge sameTargets_def)
  qed
qed

lemma json_simulation:
  assumes "jsonc_sound j"
  shows "parseTree j t = Some r \<Longrightarrow> sameTargets n r r0 \<Longrightarrow>
         parseTree j (foldl (jsonStep j (Some r0) hasWs n current) t ops)
           = Some (applyOps r (jsonOps r0 hasWs n current ops))
         \<and> sameTargets n (applyOps r (jsonOps r0 hasWs n current ops)) r0"
proof (induction ops arbitrary: t r)
  case Nil
  then show ?case by (simp add: jsonOps_def)
next
  case (Cons e ops)
  show ?case
  proof (cases "jsonTarget r0 hasWs n current e")
    case None
    then have "jsonOps r0 hasWs n current (e # ops) = jsonOps r0 hasWs n current ops"
      by (simp add: jsonOps_def)
    then show ?thesis
      using Cons.IH [OF Cons.prems] None by (simp add: jsonStep_target)
  next
    case (Some p)
    note tg = jsonTarget_Some [OF Some]
    have ex: "getIn r p \<noteq> None"
      using Cons.prems(2) tg(1,2) by (simp add: sameTargets_def)
    let ?r = "setIn r p (Str (snd e))"
    have 1: "parseTree j (modifyApply j t p (snd e)) = Some ?r"
      using assms Cons.prems(1) ex unfolding jsonc_sound_def by blast
    have 2: "sameTargets n ?r r0"
      by (rule sameTargets_setIn [OF Cons.prems(2) tg(2) ex])
    have 3: "jsonOps r0 hasWs n current (e # ops) = (p, snd e) # jsonOps r0 hasWs n current ops"
      using Some by (simp add: jsonOps_def)
    have 4: "setIfPresent r p (snd e) = ?r"
      using ex by (simp add: setIfPresent_def)
    show ?thesis
      using Cons.IH [OF 1 2] by (simp add: jsonStep_target Some 3 4)
  qed
qed

lemma jsonOps_mem:
  "(p, v) \<in> set (jsonOps r0 hasWs n current ops) \<longleftrightarrow>
     (\<exists>dep. (dep, v) \<in> set ops \<and> jsonTarget r0 hasWs n current (dep, v) = Some p)"
  by (force simp: jsonOps_def split: option.splits)

lemma separated_jsonOps:
  assumes "distinct (map fst ops)"
  shows "separated (jsonOps r0 hasWs n current ops)"
  unfolding separated_iff
proof (intro allI impI)
  fix p v q w
  assume "(p, v) \<in> set (jsonOps r0 hasWs n current ops)"
    "(q, w) \<in> set (jsonOps r0 hasWs n current ops)"
  then obtain d1 d2 where
    1: "(d1, v) \<in> set ops" "jsonTarget r0 hasWs n current (d1, v) = Some p"
    and 2: "(d2, w) \<in> set ops" "jsonTarget r0 hasWs n current (d2, w) = Some q"
    unfolding jsonOps_mem by blast
  show "(q, w) = (p, v) \<or> diverge q p"
  proof (cases "d1 = d2")
    case True
    then have "v = w"
      using distinct_fst_unique [OF assms] 1(1) 2(1) by blast
    then show ?thesis using True 1(2) 2(2) by simp
  next
    case False
    have "p = keyPathOf n d1 \<or> p = ''workspaces'' # keyPathOf n d1"
      "q = keyPathOf n d2 \<or> q = ''workspaces'' # keyPathOf n d2"
      using jsonTarget_Some(3) [OF 1(2)] jsonTarget_Some(3) [OF 2(2)] by simp_all
    then have "diverge q p"
      using False by (cases "n = []") (auto simp: keyPathOf_def)
    then show ?thesis by simp
  qed
qed

subsection \<open>The checks of the JSON path after a run\<close>

lemma getIn_key_existing:
  "getIn d (k # ks) \<noteq> None \<Longrightarrow> \<exists>kvs c. d = Obj kvs \<and> map_of kvs k = Some c \<and> getIn c ks \<noteq> None"
  by (cases d) (auto split: option.splits)

lemma hasWs_root_edit:
  assumes "k \<noteq> ''workspaces''" and "getIn r (k # ks) \<noteq> None"
  shows "hasWorkspacesCatalogs (Some (setIn r (k # ks) v)) = hasWorkspacesCatalogs (Some r)"
proof -
  obtain kvs c where r: "r = Obj kvs" "map_of kvs k = Some c"
    using getIn_key_existing [OF assms(2)] by blast
  show ?thesis
    using assms(1) by (simp add: r hasWorkspacesCatalogs_def findNodeAtLocation_def update_conv')
qed

lemma hasWs_ws_edit:
  assumes "getIn r (''workspaces'' # k # ks) \<noteq> None" and "ks \<noteq> []"
  shows "hasWorkspacesCatalogs (Some (setIn r (''workspaces'' # k # ks) v))
           = hasWorkspacesCatalogs (Some r)"
proof -
  obtain kvs w where r: "r = Obj kvs" "map_of kvs ''workspaces'' = Some w" "getIn w (k # ks) \<noteq> None"
    using getIn_key_existing [OF assms(1)] by blast
  obtain kvs' c where w: "w = Obj kvs'" "map_of kvs' k = Some c" "getIn c ks \<noteq> None"
    using getIn_key_existing [OF r(3)] by blast
  obtain k' ks' where ks: "ks = k' # ks'" using assms(2) by (cases ks) auto
  show ?thesis
    by (simp add: r w hasWorkspacesCatalogs_def findNodeAtLocation_def update_conv')
qed

lemma hasWs_setIn:
  assumes "isTarget n p" and "getIn r p \<noteq> None"
  shows "hasWorkspacesCatalogs (Some (setIn r p v)) = hasWorkspacesCatalogs (Some r)"
proof -
  obtain dep where "p = keyPathOf n dep \<or> p = ''workspaces'' # keyPathOf n dep"
    using assms(1) by (auto simp: isTarget_def)
  then show ?thesis
  proof
    assume "p = keyPathOf n dep"
    then show ?thesis
      using assms(2) hasWs_root_edit [of _ r _ v]
      by (cases "n = []") (simp_all add: keyPathOf_def)
  next
    assume "p = ''workspaces'' # keyPathOf n dep"
    then show ?thesis
      using assms(2) hasWs_ws_edit [of r _ _ v]
      by (cases "n = []") (simp_all add: keyPathOf_def)
  qed
qed

lemma hasWs_applyOps:
  "(\<And>p v. (p, v) \<in> set ops \<Longrightarrow> isTarget n p) \<Longrightarrow>
   hasWorkspacesCatalogs (Some (applyOps r ops)) = hasWorkspacesCatalogs (Some r)"
proof (induction ops arbitrary: r)
  case Nil
  then show ?case by simp
next
  case (Cons e ops)
  obtain p v where e: "e = (p, v)" by (cases e)
  have t: "isTarget n p" using Cons.prems [of p v] e by simp
  have "hasWorkspacesCatalogs (Some (setIfPresent r p v)) = hasWorkspacesCatalogs (Some r)"
    using hasWs_setIn [OF t] by (simp add: setIfPresent_def)
  moreover have "hasWorkspacesCatalogs (Some (applyOps (setIfPresent r p v) ops))
      = hasWorkspacesCatalogs (Some (setIfPresent r p v))"
  proof (rule Cons.IH)
    fix p' v' assume "(p', v') \<in> set ops"
    then show "isTarget n p'" using Cons.prems [of p' v'] by simp
  qed
  ultimately show ?case using e by simp
qed

lemma jsonTarget_cong:
  assumes "sameTargets n r r0"
  shows "jsonTarget r hasWs n current e = jsonTarget r0 hasWs n current e"
proof -
  obtain dep v where e: "e = (dep, v)" by (cases e)
  have "isTarget n (keyPathOf n dep)" "isTarget n (''workspaces'' # keyPathOf n dep)"
    by (auto simp: isTarget_def)
  then have "getIn r (keyPathOf n dep) = None \<longleftrightarrow> getIn r0 (keyPathOf n dep) = None"
    "getIn r (''workspaces'' # keyPathOf n dep) = None
       \<longleftrightarrow> getIn r0 (''workspaces'' # keyPathOf n dep) = None"
    using assms unfolding sameTargets_def by blast+
  then show ?thesis
    unfolding e jsonTarget_def by auto
qed

lemma upgradeJsonCatalogData_idem:
  assumes sound: "jsonc_sound j" and stable: "jsonc_stable j"
    and dist: "distinct (map fst upgraded)"
  shows "upgradeJsonCatalogData j (upgradeJsonCatalogData j t n current upgraded) n current upgraded
           = upgradeJsonCatalogData j t n current upgraded"
proof (cases "parseTree j t")
  case None
  have "upgradeJsonCatalogData j t n current upgraded = t"
    by (simp add: upgradeJsonCatalogData_def None Let_def jsonStep_None foldl_fixed)
  then show ?thesis by simp
next
  case (Some r0)
  let ?hw = "hasWorkspacesCatalogs (Some r0)"
  let ?ops = "jsonOps r0 ?hw n current upgraded"
  let ?t1 = "upgradeJsonCatalogData j t n current upgraded"
  let ?r1 = "applyOps r0 ?ops"
  have t1: "?t1 = foldl (jsonStep j (Some r0) ?hw n current) t upgraded"
    by (simp add: upgradeJsonCatalogData_def Some Let_def)
  have sim: "parseTree j ?t1 = Some ?r1" "sameTargets n ?r1 r0"
    using json_simulation [OF sound Some sameTargets_refl,
        where n = n and hasWs = ?hw and current = current and ops = upgraded] t1
    by simp_all
  have tg: "isTarget n p" if "(p, v) \<in> set ?ops" for p v
    using that jsonTarget_Some(2) unfolding jsonOps_mem by blast
  have hw: "hasWorkspacesCatalogs (Some ?r1) = ?hw"
    by (rule hasWs_applyOps) (rule tg)
  have sep: "separated ?ops"
    by (rule separated_jsonOps [OF dist])
  have fixd: "jsonStep j (Some ?r1) ?hw n current ?t1 e = ?t1" if e: "e \<in> set upgraded" for e
  proof (cases "jsonTarget r0 ?hw n current e")
    case None
    then show ?thesis
      by (simp add: jsonStep_target jsonTarget_cong [OF sim(2)])
  next
    case (Some p)
    obtain dep v where dv: "e = (dep, v)" by (cases e)
    have mem: "(p, v) \<in> set ?ops"
      unfolding jsonOps_mem using e Some dv by blast
    have "getIn ?r1 p = (if getIn r0 p = None then None else Some (Str v))"
    proof (rule applyOps_value [OF mem])
      fix q w assume "(q, w) \<in> set ?ops"
      then show "(q, w) = (p, v) \<or> diverge q p"
        using sep mem unfolding separated_iff by blast
    qed
    then have "getIn ?r1 p = Some (Str v)"
      using jsonTarget_Some(1) [OF Some] by simp
    then have "modifyApply j ?t1 p v = ?t1"
      using stable sim(1) unfolding jsonc_stable_def by blast
    then show ?thesis
      using Some by (simp add: jsonStep_target jsonTarget_cong [OF sim(2)] dv)
  qed
  have "foldl (jsonStep j (Some ?r1) ?hw n current) ?t1 upgraded = ?t1"
    by (rule foldl_fixed) (rule fixd)
  then show ?thesis
    by (simp add: upgradeJsonCatalogData_def [of j ?t1] sim(1) hw Let_def)
qed

subsection \<open>A second run changes nothing\<close>

lemma tree_yaml_roundtrip: "yaml_roundtrip tree_yaml"
  by (simp add: yaml_roundtrip_def tree_yaml_def)

lemma tree_jsonc_sound: "jsonc_sound tree_jsonc"
  by (simp add: jsonc_sound_def tree_jsonc_def)

lemma tree_jsonc_stable: "jsonc_stable tree_jsonc"
  by (simp add: jsonc_stable_def tree_jsonc_def setIn_noop)

lemma upgradeJsonCatalogData_unchanged:
  assumes "\<And>dep v. (dep, v) \<in> set upgraded \<Longrightarrow> fmlookup current dep = Some v"
  shows "upgradeJsonCatalogData j t n current upgraded = t"
proof -
  have "jsonStep j root hasWs n current t e = t" if "e \<in> set upgraded" for e root hasWs
    using assms [of "fst e" "snd e"] that by (cases e) (simp add: jsonStep_def)
  then show ?thesis
    by (simp add: upgradeJsonCatalogData_def Let_def foldl_fixed)
qed

text \<open>
  Claim C8 (idempotence). If \<^verbatim>\<open>upgradeCatalogData\<close> returns a text for some content, file
  extension, catalog name, current map and upgraded map, then running it again with the same
  arguments on the returned text returns that text unchanged. The entries of \<^verbatim>\<open>upgraded\<close> come
  from \<^verbatim>\<open>Object.entries\<close>, so their keys are distinct; the libraries are assumed to satisfy
  \<open>yaml_roundtrip\<close>, \<open>jsonc_sound\<close> and \<open>jsonc_stable\<close>.
\<close>

theorem upgradeCatalogData_idempotent:
  assumes "yaml_roundtrip y" and "jsonc_sound j" and "jsonc_stable j"
    and "distinct (map fst upgraded)"
    and "upgradeCatalogData y j t ext n current upgraded = Inr t1"
  shows "upgradeCatalogData y j t1 ext n current upgraded = Inr t1"
proof (cases "ext = ''.yaml'' \<or> ext = ''.yml''")
  case True
  then have "upgradeYamlCatalogData y t n current upgraded = Inr t1"
    using assms(5) by (simp add: upgradeCatalogData_def)
  then have "upgradeYamlCatalogData y t1 n current upgraded = Inr t1"
    by (rule upgradeYamlCatalogData_idem [OF assms(1) assms(4)])
  then show ?thesis using True by (simp add: upgradeCatalogData_def)
next
  case False
  then have ext: "ext = ''.json''" and t1: "t1 = upgradeJsonCatalogData j t n current upgraded"
    using assms(5) by (auto simp: upgradeCatalogData_def split: if_splits)
  have "upgradeJsonCatalogData j t1 n current upgraded = t1"
    unfolding t1 by (rule upgradeJsonCatalogData_idem [OF assms(2) assms(3) assms(4)])
  then show ?thesis using False ext by (simp add: upgradeCatalogData_def)
qed

theorem upgradeCatalogData_idempotent_witness:
  "upgradeCatalogData tree_yaml tree_jsonc doc_workspace ''.yaml'' ''default''
      (index_of [(''lodash'', ''4.17.20'')]) [(''lodash'', ''4.17.21'')]
     = Inr (setIn doc_workspace [''catalog'', ''lodash''] (Str ''4.17.21''))
   \<and> upgradeCatalogData tree_yaml tree_jsonc
        (setIn doc_workspace [''catalog'', ''lodash''] (Str ''4.17.21'')) ''.yaml'' ''default''
        (index_of [(''lodash'', ''4.17.20'')]) [(''lodash'', ''4.17.21'')]
     = Inr (setIn doc_workspace [''catalog'', ''lodash''] (Str ''4.17.21''))"
proof -
  have 1: "upgradeCatalogData tree_yaml tree_jsonc doc_workspace ''.yaml'' ''default''
      (index_of [(''lodash'', ''4.17.20'')]) [(''lodash'', ''4.17.21'')]
     = Inr (setIn doc_workspace [''catalog'', ''lodash''] (Str ''4.17.21''))"
    by (simp add: patch_eval doc_workspace_def)
  have d: "distinct (map fst [(''lodash'', ''4.17.21'')])"
    by simp
  show ?thesis
    using 1 upgradeCatalogData_idempotent
      [OF tree_yaml_roundtrip tree_jsonc_sound tree_jsonc_stable d 1]
    by simp
qed

subsection \<open>Dependencies without a current version, and edits that change nothing\<close>

text \<open>
  Claim C10, evaluated. The YAML path filters with \<^verbatim>\<open>current[dep]\<close> on a plain object, which
  is truthy for a name inherited from \<^verbatim>\<open>Object.prototype\<close>: with an empty \<^verbatim>\<open>current\<close> the
  entry of the package \<^verbatim>\<open>constructor\<close> is rewritten although that name is absent from
  \<^verbatim>\<open>current\<close>, while the entry of \<^verbatim>\<open>foo\<close>, equally absent, is left alone. The JSON path
  reaches its edits for a dependency absent from \<^verbatim>\<open>current\<close>, but in a document that holds
  the dependency at \<^verbatim>\<open>catalog\<close> and at \<^verbatim>\<open>workspaces.catalog\<close> the edit of the root entry is
  discarded: the root path exists and keeps the old version.
\<close>

theorem yaml_rewrites_inherited_name_json_keeps_root_entry:
  "fmlookup (fmempty :: Index) ''constructor'' = None
   \<and> upgradeCatalogData tree_yaml tree_jsonc doc_constructor ''.yaml'' ''default'' fmempty
        [(''constructor'', ''2.0.0'')]
      = Inr (setIn doc_constructor [''catalog'', ''constructor''] (Str ''2.0.0''))
   \<and> getIn (setIn doc_constructor [''catalog'', ''constructor''] (Str ''2.0.0''))
        [''catalog'', ''constructor''] = Some (Str ''2.0.0'')
   \<and> getIn doc_constructor [''catalog'', ''constructor''] = Some (Str ''1.0.0'')
   \<and> upgradeCatalogData tree_yaml tree_jsonc doc_workspace ''.yaml'' ''default'' fmempty
        [(''foo'', ''2.0.0'')]
      = Inr doc_workspace
   \<and> getIn doc_dual [''catalog'', ''foo''] = Some (Str ''1.0.0'')
   \<and> upgradeCatalogData tree_yaml tree_jsonc doc_dual ''.json'' [] fmempty [(''foo'', ''2.0.0'')]
      = Inr (setIn doc_dual [''workspaces'', ''catalog'', ''foo''] (Str ''2.0.0''))
   \<and> getIn (setIn doc_dual [''workspaces'', ''catalog'', ''foo''] (Str ''2.0.0''))
        [''catalog'', ''foo''] = Some (Str ''1.0.0'')
   \<and> upgradeCatalogData tree_yaml tree_jsonc doc_workspace ''.json'' [] fmempty
        [(''foo'', ''2.0.0'')]
      = Inr (setIn doc_workspace [''catalog'', ''foo''] (Str ''2.0.0''))"
  by (simp add: patch_eval doc_constructor_def doc_dual_def doc_workspace_def)

text \<open>
  Claim C7, evaluated. The JSON path returns the text untouched when the old and the new
  version agree (lemma \<open>upgradeJsonCatalogData_unchanged\<close>); the YAML path has no such
  comparison and assigns the new version to every located entry. Here \<^verbatim>\<open>current\<close> and
  \<^verbatim>\<open>upgraded\<close> both say 2.0.0 while the file says 1.0.0, and the output differs from the input.
\<close>

theorem yaml_edit_with_old_equal_new_changes_text:
  "upgradeCatalogData tree_yaml tree_jsonc doc_workspace ''.yaml'' ''default''
      (index_of [(''foo'', ''2.0.0'')]) [(''foo'', ''2.0.0'')]
     = Inr (setIn doc_workspace [''catalog'', ''foo''] (Str ''2.0.0''))
   \<and> setIn doc_workspace [''catalog'', ''foo''] (Str ''2.0.0'') \<noteq> doc_workspace
   \<and> upgradeCatalogData tree_yaml tree_jsonc doc_workspace ''.json'' []
      (index_of [(''foo'', ''2.0.0'')]) [(''foo'', ''2.0.0'')]
     = Inr doc_workspace"
  by (simp add: patch_eval doc_workspace_def)

section \<open>Properties of the orchestration\<close>

lemmas orch_eval =
  processCatalogs_def collectReferences.simps getCatalogDependencies_def sectionEntries_def
  filterEntries_def objAssign_def addReference_def addReferences.simps catalogNameOf_def
  removeFirst.simps checkUpgrades_def upgradesOfCatalog_def findCatalogFile_def foundPath_def
  updateCatalogFile_def updateCatalogs.simps upgradeCatalogDataFile_def
  upgradeYamlCatalogDataFile_def upgradeJsonCatalogDataFile_def upgradeJsonCatalogText_def
  jsonStepFile_def keyPathOfFile_def extname_def basename_def readFile_def writeFile_def
  objectEntries_def arrayIndex_def decimalValue_def workspacePackageMap_def
  objectPrototypeNames_def
  sample_env_def sample_fs_def consumer_def upgradeTo_def options_of_def

subsection \<open>File accesses of the update loop\<close>













subsection \<open>The default catalog of a workspace file\<close>

lemmas read_eval = readCatalogDependencies_def mergeCatalog_def mergeCatalogs_def

text \<open>
  Claim C4, evaluated. The workspace file defines \<^verbatim>\<open>catalog: {lodash: 4.17.20}\<close>, a consumer
  declares \<^verbatim>\<open>lodash: catalog:\<close>, the desired version is 4.17.21. For a
  \<^verbatim>\<open>pnpm-workspace.yaml\<close>, \<^verbatim>\<open>readCatalogDependencies\<close> reads only its \<^verbatim>\<open>catalogs\<close> member and
  returns \<^verbatim>\<open>null\<close>, on which \<^verbatim>\<open>processCatalogs\<close> returns at once. For a \<^verbatim>\<open>package.json\<close> the
  default catalog is stored under the key \<^verbatim>\<open>default\<close>, while \<^verbatim>\<open>processCatalogs\<close> looks it up
  under \<^verbatim>\<open>catalog:\<close>. In both cases no file is read or written.
\<close>

theorem default_catalog_scenario_not_rewritten:
  "readCatalogDependencies (options_of [''dependencies''] None) (Some doc_flat) (Some doc_root)
     = Inr None
   \<and> processCatalogs (sample_env [(''lodash'', ''4.17.21'')]) (options_of [''dependencies''] None)
       [consumer ''lodash'' ''catalog:''] None (sample_fs doc_flat doc_root)
     = (sample_fs doc_flat doc_root, Inr ())
   \<and> readCatalogDependencies (options_of [''dependencies''] None) None (Some doc_bun)
     = Inr (Some [(''default'', [(''lodash'', ''4.17.20'')])])
   \<and> processCatalogs (sample_env [(''lodash'', ''4.17.21'')]) (options_of [''dependencies''] None)
       [consumer ''lodash'' ''catalog:''] (Some [(''default'', [(''lodash'', ''4.17.20'')])])
       (sample_fs doc_flat doc_bun)
     = (sample_fs doc_flat doc_bun, Inr ())"
  by (simp add: orch_eval read_eval doc_flat_def doc_root_def doc_bun_def)

subsection \<open>A dependency defined in two locations\<close>

text \<open>
  Claim C5, evaluated. The document holds \<^verbatim>\<open>catalog.foo\<close> and \<^verbatim>\<open>workspaces.catalog.foo\<close>, both
  at 1.0.0, and one edit asks for 2.0.0. In both versions of \<^verbatim>\<open>upgradeJsonCatalogData\<close> the
  second assignment is computed from \<^verbatim>\<open>content\<close>, not from the result of the first, so only
  the \<^verbatim>\<open>workspaces\<close> copy is updated: in the pure version with the empty catalog name (the
  one that selects \<^verbatim>\<open>['catalog', dep]\<close> there), in the file-reading version with the name
  \<^verbatim>\<open>'default'\<close>. In the pure version the name \<^verbatim>\<open>'default'\<close> selects
  \<^verbatim>\<open>['catalogs', 'default', dep]\<close> and nothing is updated.
\<close>

theorem dual_location_edit_updates_one_copy:
  "getIn (upgradeJsonCatalogData tree_jsonc doc_dual [] (index_of [(''foo'', ''1.0.0'')])
            [(''foo'', ''2.0.0'')]) [''catalog'', ''foo''] = Some (Str ''1.0.0'')
   \<and> getIn (upgradeJsonCatalogData tree_jsonc doc_dual [] (index_of [(''foo'', ''1.0.0'')])
            [(''foo'', ''2.0.0'')]) [''workspaces'', ''catalog'', ''foo''] = Some (Str ''2.0.0'')
   \<and> upgradeJsonCatalogData tree_jsonc doc_dual ''default'' (index_of [(''foo'', ''1.0.0'')])
            [(''foo'', ''2.0.0'')] = doc_dual
   \<and> snd (upgradeJsonCatalogDataFile (sample_env []) ''/repo/package.json'' ''default''
            (index_of [(''foo'', ''1.0.0'')]) [(''foo'', ''2.0.0'')] (sample_fs doc_flat doc_dual))
       = Inr (Obj [(''name'', Str ''root''),
                   (''catalog'', Obj [(''foo'', Str ''1.0.0'')]),
                   (''workspaces'',
                      Obj [(''packages'', Arr [Str ''packages/*'']),
                           (''catalog'', Obj [(''foo'', Str ''2.0.0'')])])])"
  by (simp add: orch_eval patch_eval doc_dual_def)

subsection \<open>Named catalogs\<close>

text \<open>
  Claim C9, evaluated. The workspace file defines the catalogs \<^verbatim>\<open>mobile\<close> and \<^verbatim>\<open>web\<close>, both
  with \<^verbatim>\<open>axios\<close> at 1.0.0; one consumer declares \<^verbatim>\<open>axios: catalog:mobile\<close>; the desired
  version is 1.2.0. \<^verbatim>\<open>readCatalogDependencies\<close> stores the catalogs under the keys \<^verbatim>\<open>mobile\<close>
  and \<^verbatim>\<open>web\<close>, while \<^verbatim>\<open>processCatalogs\<close> looks the referenced one up under
  \<^verbatim>\<open>catalog:mobile\<close>: it finds no upgrades and returns with no file read or written, so
  \<^verbatim>\<open>catalogs.mobile.axios\<close> stays at 1.0.0.
\<close>

theorem named_catalog_scenario_not_rewritten:
  "readCatalogDependencies (options_of [''dependencies''] None) (Some doc_named) (Some doc_root)
     = Inr (Some [(''mobile'', [(''axios'', ''1.0.0'')]), (''web'', [(''axios'', ''1.0.0'')])])
   \<and> collectReferences (options_of [''dependencies''] None)
       [consumer ''axios'' ''catalog:mobile''] []
     = Inr [(''mobile'', [''axios''])]
   \<and> checkUpgrades (sample_env [(''axios'', ''1.2.0'')])
       [(''mobile'', [(''axios'', ''1.0.0'')]), (''web'', [(''axios'', ''1.0.0'')])]
       [(''mobile'', [''axios''])]
     = []
   \<and> processCatalogs (sample_env [(''axios'', ''1.2.0'')]) (options_of [''dependencies''] None)
       [consumer ''axios'' ''catalog:mobile'']
       (Some [(''mobile'', [(''axios'', ''1.0.0'')]), (''web'', [(''axios'', ''1.0.0'')])])
       (sample_fs doc_named doc_root)
     = (sample_fs doc_named doc_root, Inr ())
   \<and> fmlookup (files (sample_fs doc_named doc_root)) ''/repo/pnpm-workspace.yaml''
     = Some doc_named
   \<and> getIn doc_named [''catalogs'', ''mobile'', ''axios''] = Some (Str ''1.0.0'')"
  by (simp add: orch_eval read_eval doc_named_def doc_root_def)

end
